theory Spec2Isabelle
  imports Main
begin

text \<open>
  The persistent store of the update client, \<^verbatim>\<open>mender-storage.c\<close> for the Posix
  platform: authentication keys, deployment data, update state, provides and artifact
  name, each kept in a file of its own. The functions are embedded over a model of
  the files, the heap and the failures of the C library, so that every return path
  of the source, the error paths included, is a branch of the model.
\<close>

section \<open>Return codes\<close>

text \<open>
  The codes of \<^verbatim>\<open>mender_err_t\<close> that the storage and scheduler sources return.
\<close>

datatype mender_err_t = MENDER_OK | MENDER_FAIL | MENDER_NOT_FOUND | MENDER_NOT_IMPLEMENTED

section \<open>The C library as the store sees it\<close>

text \<open>
  Bytes are \<^typ>\<open>char\<close> (8 bits), byte buffers and file contents are \<^typ>\<open>string\<close>.
  A pointer the store hands out is an address, \<open>0\<close> being \<^verbatim>\<open>NULL\<close>. A pointer
  argument that the store only reads from is the list of the bytes found there: a
  \<^verbatim>\<open>const char *\<close> denotes the C string that ends before the first NUL byte, and
  a buffer passed with its length is read up to that length (where the length
  exceeds the buffer, the C reads past it; the model moves the bytes there are and
  reports the shortfall).
\<close>

type_synonym ptr = nat

abbreviation NULL :: ptr where
  "NULL \<equiv> 0"

abbreviation NUL :: char where
  "NUL \<equiv> CHR 0x00"

text \<open>
  Every call of the C library that can fail (\<^verbatim>\<open>fopen\<close>, \<^verbatim>\<open>fwrite\<close>, \<^verbatim>\<open>fread\<close>,
  \<^verbatim>\<open>fclose\<close> of a stream with pending output, \<^verbatim>\<open>malloc\<close>, \<^verbatim>\<open>calloc\<close>,
  \<^verbatim>\<open>strdup\<close>) takes its fate from a script carried by the world, one entry per
  call, in order; an exhausted script lets every call succeed.
  \<open>Refuse\<close> makes the call fail outright, \<open>Short k\<close> lets a transfer move at most
  \<open>k\<close> bytes (and makes an open or an allocation fail).
\<close>

datatype outcome = Normal | Refuse | Short nat

record world =
  files :: "string \<Rightarrow> string option"
  heap :: "(ptr \<times> string) list"
  script :: "outcome list"
  junk :: "nat \<Rightarrow> char"

text \<open>
  \<open>files\<close> maps a path to the content of the file there, \<open>heap\<close> lists the live
  allocations, each an address with its buffer, and \<open>junk\<close> is the
  indeterminate content that \<^verbatim>\<open>malloc\<close> hands out.
\<close>

definition next_outcome :: "world \<Rightarrow> outcome \<times> world" where
  "next_outcome w =
     (case script w of
        [] \<Rightarrow> (Normal, w)
      | c # cs \<Rightarrow> (c, w\<lparr>script := cs\<rparr>))"

definition buffer_at :: "world \<Rightarrow> ptr \<Rightarrow> string option" where
  "buffer_at w p = map_of (heap w) p"

definition fresh_addr :: "(ptr \<times> string) list \<Rightarrow> ptr" where
  "fresh_addr h = Suc (foldr max (map fst h) 0)"

definition allocate :: "string \<Rightarrow> world \<Rightarrow> ptr \<times> world" where
  "allocate buf w =
     (case next_outcome w of
        (Normal, w1) \<Rightarrow>
          (let p = fresh_addr (heap w1) in (p, w1\<lparr>heap := (p, buf) # heap w1\<rparr>))
      | (_, w1) \<Rightarrow> (NULL, w1))"

definition malloc :: "nat \<Rightarrow> world \<Rightarrow> ptr \<times> world" where
  "malloc n w = allocate (map (junk w) [0..<n]) w"

definition calloc :: "nat \<Rightarrow> nat \<Rightarrow> world \<Rightarrow> ptr \<times> world" where
  "calloc nmemb sz w = allocate (replicate (nmemb * sz) NUL) w"

definition strlen :: "string \<Rightarrow> nat" where
  "strlen s = length (takeWhile (\<lambda>c. c \<noteq> NUL) s)"

definition strdup :: "string \<Rightarrow> world \<Rightarrow> ptr \<times> world" where
  "strdup s w = allocate (take (strlen s) s @ [NUL]) w"

definition free :: "ptr \<Rightarrow> world \<Rightarrow> world" where
  "free p w = w\<lparr>heap := filter (\<lambda>(a, _). a \<noteq> p) (heap w)\<rparr>"

text \<open>
  Writing into the buffer at an address. The source only writes into buffers it has
  just allocated; a write through an address that is not live leaves the model as
  it is.
\<close>

definition set_buffer :: "ptr \<Rightarrow> (string \<Rightarrow> string) \<Rightarrow> world \<Rightarrow> world" where
  "set_buffer p f w =
     w\<lparr>heap := map (\<lambda>(a, buf). if a = p then (a, f buf) else (a, buf)) (heap w)\<rparr>"

definition overlay :: "string \<Rightarrow> string \<Rightarrow> string" where
  "overlay moved dst = moved @ drop (length moved) dst"

subsection \<open>Streams\<close>

text \<open>
  A stream knows its file, its position for reading, and the bytes that
  \<^verbatim>\<open>fwrite\<close> has accepted and that have not reached the file yet.
\<close>

record stream =
  fpath :: string
  fpos :: nat
  fbuf :: string

datatype fmode = RB | WB

definition file_bytes :: "world \<Rightarrow> string \<Rightarrow> string" where
  "file_bytes w path = (case files w path of None \<Rightarrow> [] | Some c \<Rightarrow> c)"

definition fopen :: "string \<Rightarrow> fmode \<Rightarrow> world \<Rightarrow> stream option \<times> world" where
  "fopen path mode w =
     (case next_outcome w of
        (Normal, w1) \<Rightarrow>
          (case mode of
             RB \<Rightarrow>
               (case files w1 path of
                  None \<Rightarrow> (None, w1)
                | Some _ \<Rightarrow> (Some \<lparr>fpath = path, fpos = 0, fbuf = []\<rparr>, w1))
           | WB \<Rightarrow>
               (Some \<lparr>fpath = path, fpos = 0, fbuf = []\<rparr>, w1\<lparr>files := (files w1)(path \<mapsto> [])\<rparr>))
      | (_, w1) \<Rightarrow> (None, w1))"

text \<open>
  \<^verbatim>\<open>fseek(f, 0, SEEK_END)\<close>, \<^verbatim>\<open>fseek(f, 0, SEEK_SET)\<close> and \<^verbatim>\<open>ftell\<close> on a regular
  file that was just opened are taken to succeed (the source does not check
  \<^verbatim>\<open>fseek\<close> either).
\<close>

definition fseek_end :: "stream \<Rightarrow> world \<Rightarrow> stream" where
  "fseek_end f w = f\<lparr>fpos := length (file_bytes w (fpath f))\<rparr>"

definition fseek_set :: "stream \<Rightarrow> stream" where
  "fseek_set f = f\<lparr>fpos := 0\<rparr>"

definition ftell :: "stream \<Rightarrow> nat" where
  "ftell f = fpos f"

definition transfer :: "outcome \<Rightarrow> string \<Rightarrow> string" where
  "transfer c want =
     (case c of Normal \<Rightarrow> want | Refuse \<Rightarrow> [] | Short k \<Rightarrow> take k want)"

definition items :: "nat \<Rightarrow> string \<Rightarrow> nat" where
  "items sz moved = (if sz = 0 then 0 else length moved div sz)"

text \<open>
  Output is buffered. \<^verbatim>\<open>fwrite(data, sz, nmemb, f)\<close> puts the bytes it accepts
  behind the pending bytes of the stream and returns the number of complete items;
  nothing reaches the file before \<^verbatim>\<open>fclose\<close>. \<^verbatim>\<open>fclose(f)\<close> writes the
  pending bytes to the file and can fail at that: then none or only some of them
  land and it returns \<^verbatim>\<open>EOF\<close>. A stream with nothing pending is closed without
  a call that could fail. \<^verbatim>\<open>fread(dst, sz, nmemb, f)\<close> returns the bytes that were
  moved, which the caller lays over the destination, the number of complete items,
  and the advanced stream.
\<close>

definition fwrite ::
  "string \<Rightarrow> nat \<Rightarrow> nat \<Rightarrow> stream \<Rightarrow> world \<Rightarrow> nat \<times> stream \<times> world" where
  "fwrite data sz nmemb f w =
     (case next_outcome w of
        (c, w1) \<Rightarrow>
          (let moved = transfer c (take (sz * nmemb) data)
           in (items sz moved, f\<lparr>fbuf := fbuf f @ moved\<rparr>, w1)))"

definition EOF :: int where
  "EOF = - 1"

definition fclose :: "stream \<Rightarrow> world \<Rightarrow> int \<times> world" where
  "fclose f w =
     (if fbuf f = [] then (0, w)
      else
        (case next_outcome w of
           (c, w1) \<Rightarrow>
             (let landed = transfer c (fbuf f)
              in (if landed = fbuf f then 0 else EOF,
                  w1\<lparr>files := (files w1)(fpath f \<mapsto> file_bytes w1 (fpath f) @ landed)\<rparr>))))"

definition fread :: "nat \<Rightarrow> nat \<Rightarrow> stream \<Rightarrow> world \<Rightarrow> string \<times> nat \<times> stream \<times> world" where
  "fread sz nmemb f w =
     (case next_outcome w of
        (c, w1) \<Rightarrow>
          (let moved = transfer c (take (sz * nmemb) (drop (fpos f) (file_bytes w1 (fpath f))))
           in (moved, items sz moved, f\<lparr>fpos := fpos f + length moved\<rparr>, w1)))"

section \<open>The POSIX storage backend\<close>

definition MENDER_STORAGE_NVS_PRIVATE_KEY :: string where
  "MENDER_STORAGE_NVS_PRIVATE_KEY = ''key.der''"

definition MENDER_STORAGE_NVS_PUBLIC_KEY :: string where
  "MENDER_STORAGE_NVS_PUBLIC_KEY = ''pubkey.der''"

definition MENDER_STORAGE_NVS_DEPLOYMENT_DATA :: string where
  "MENDER_STORAGE_NVS_DEPLOYMENT_DATA = ''deployment-data.json''"

definition MENDER_STORAGE_NVS_UPDATE_STATE :: string where
  "MENDER_STORAGE_NVS_UPDATE_STATE = ''um_state.dat''"

definition MENDER_STORAGE_NVS_PROVIDES :: string where
  "MENDER_STORAGE_NVS_PROVIDES = ''provides.txt''"

definition MENDER_STORAGE_NVS_ARTICACT_NAME :: string where
  "MENDER_STORAGE_NVS_ARTICACT_NAME = ''artifact_name.txt''"

text \<open>
  The source calls \<^verbatim>\<open>fclose\<close> on every path that has opened the file and never
  looks at what it returns: the world after the call is kept, the result is dropped.
\<close>

definition mender_storage_write_file ::
  "string \<Rightarrow> string \<Rightarrow> nat \<Rightarrow> world \<Rightarrow> mender_err_t \<times> world" where
  "mender_storage_write_file file_path data data_length w =
     (case fopen file_path WB w of
        (None, w1) \<Rightarrow> (MENDER_FAIL, w1)
      | (Some f, w1) \<Rightarrow>
          (case fwrite data 1 data_length f w1 of
             (n, f1, w2) \<Rightarrow>
               if n \<noteq> data_length then (MENDER_FAIL, snd (fclose f1 w2))
               else (MENDER_OK, snd (fclose f1 w2))))"

text \<open>
  The out-parameters \<^verbatim>\<open>*data\<close> and \<^verbatim>\<open>*data_length\<close> come in with the values the
  caller's variables hold and go out with the values they hold at return.
\<close>

definition mender_storage_read_file ::
  "string \<Rightarrow> ptr \<Rightarrow> nat \<Rightarrow> world \<Rightarrow> mender_err_t \<times> ptr \<times> nat \<times> world" where
  "mender_storage_read_file file_path data data_length w =
     (case fopen file_path RB w of
        (None, w1) \<Rightarrow> (MENDER_NOT_FOUND, data, data_length, w1)
      | (Some f, w1) \<Rightarrow>
          (let f1 = fseek_end f w1; len = ftell f1 in
           if len \<le> 0 then (MENDER_NOT_FOUND, data, data_length, snd (fclose f1 w1))
           else
             (let f2 = fseek_set f1 in
              case malloc (len + 1) w1 of
                (p, w2) \<Rightarrow>
                  if p = NULL then (MENDER_FAIL, p, len, snd (fclose f2 w2))
                  else
                    (let w3 = set_buffer p (\<lambda>buf. buf[len := NUL]) w2 in
                     case fread 1 len f2 w3 of
                       (moved, n, f3, w4) \<Rightarrow>
                         (let w5 = set_buffer p (overlay moved) w4 in
                          if n \<noteq> len then (MENDER_FAIL, p, len, snd (fclose f3 (free p w5)))
                          else (MENDER_OK, p, len, snd (fclose f3 w5)))))))"

subsection \<open>Authentication keys\<close>


text \<open>
  The result lists the return code, then \<^verbatim>\<open>*private_key\<close>,
  \<^verbatim>\<open>*private_key_length\<close>, \<^verbatim>\<open>*public_key\<close> and \<^verbatim>\<open>*public_key_length\<close> as
  the caller finds them at return.
\<close>

definition mender_storage_get_authentication_keys ::
  "ptr \<Rightarrow> nat \<Rightarrow> ptr \<Rightarrow> nat \<Rightarrow> world \<Rightarrow> mender_err_t \<times> ptr \<times> nat \<times> ptr \<times> nat \<times> world" where
  "mender_storage_get_authentication_keys private_key private_key_length
       public_key public_key_length w =
     (case mender_storage_read_file MENDER_STORAGE_NVS_PRIVATE_KEY
             private_key private_key_length w of
        (r1, private_key1, private_key_length1, w1) \<Rightarrow>
          if MENDER_OK \<noteq> r1
          then (MENDER_NOT_FOUND, private_key1, private_key_length1,
                public_key, public_key_length, w1)
          else
            (case mender_storage_read_file MENDER_STORAGE_NVS_PUBLIC_KEY
                    public_key public_key_length w1 of
               (r2, public_key1, public_key_length1, w2) \<Rightarrow>
                 if MENDER_OK \<noteq> r2
                 then (MENDER_NOT_FOUND, NULL, 0, public_key1, public_key_length1,
                       free private_key1 w2)
                 else (MENDER_OK, private_key1, private_key_length1,
                       public_key1, public_key_length1, w2)))"

subsection \<open>Deployment data\<close>

definition mender_storage_set_deployment_data :: "string \<Rightarrow> world \<Rightarrow> mender_err_t \<times> world" where
  "mender_storage_set_deployment_data deployment_data w =
     (let deployment_data_length = strlen deployment_data in
      case mender_storage_write_file MENDER_STORAGE_NVS_DEPLOYMENT_DATA
             deployment_data deployment_data_length w of
        (r, w1) \<Rightarrow> if MENDER_OK \<noteq> r then (MENDER_FAIL, w1) else (MENDER_OK, w1))"

text \<open>
  The local \<^verbatim>\<open>deployment_data_length\<close> is uninitialised and never read; it enters
  the reader as \<open>0\<close>.
\<close>

definition mender_storage_get_deployment_data :: "ptr \<Rightarrow> world \<Rightarrow> mender_err_t \<times> ptr \<times> world" where
  "mender_storage_get_deployment_data deployment_data w =
     (case mender_storage_read_file MENDER_STORAGE_NVS_DEPLOYMENT_DATA deployment_data 0 w of
        (r, deployment_data1, deployment_data_length, w1) \<Rightarrow>
          if MENDER_OK \<noteq> r then (MENDER_NOT_FOUND, deployment_data1, w1)
          else (MENDER_OK, deployment_data1, w1))"

subsection \<open>Update state\<close>

text \<open>
  The declaration of \<^verbatim>\<open>mender_update_state_t\<close> is not part of the sources at hand.
  A value of the type is its object representation, the bytes that
  \<^verbatim>\<open>fwrite(&state, 1, sizeof(state), f)\<close> writes, and \<^verbatim>\<open>sizeof\<close> is their number.
\<close>

type_synonym mender_update_state_t = string

definition sizeof :: "mender_update_state_t \<Rightarrow> nat" where
  "sizeof obj = length obj"

definition mender_storage_save_update_state ::
  "mender_update_state_t \<Rightarrow> string \<Rightarrow> world \<Rightarrow> mender_err_t \<times> world" where
  "mender_storage_save_update_state state artifact_type w =
     (case fopen MENDER_STORAGE_NVS_UPDATE_STATE WB w of
        (None, w1) \<Rightarrow> (MENDER_FAIL, w1)
      | (Some f, w1) \<Rightarrow>
          (case fwrite state 1 (sizeof state) f w1 of
             (n, f1, w2) \<Rightarrow>
               if n \<noteq> sizeof state then (MENDER_FAIL, snd (fclose f1 w2))
               else
                 (let artifact_type_len = strlen artifact_type in
                  case fwrite artifact_type 1 artifact_type_len f1 w2 of
                    (m, f2, w3) \<Rightarrow>
                      if m \<noteq> artifact_type_len then (MENDER_FAIL, snd (fclose f2 w3))
                      else (MENDER_OK, snd (fclose f2 w3)))))"

text \<open>
  The result lists the return code, then \<^verbatim>\<open>*state\<close> and \<^verbatim>\<open>*artifact_type\<close> as
  the caller finds them at return. \<^verbatim>\<open>fread(state, sizeof(*state), 1, f)\<close> writes
  the bytes it moved straight into the caller's variable.
\<close>

definition mender_storage_get_update_state ::
  "mender_update_state_t \<Rightarrow> ptr \<Rightarrow> world \<Rightarrow> mender_err_t \<times> mender_update_state_t \<times> ptr \<times> world" where
  "mender_storage_get_update_state state artifact_type w =
     (case fopen MENDER_STORAGE_NVS_UPDATE_STATE RB w of
        (None, w1) \<Rightarrow> (MENDER_NOT_FOUND, state, artifact_type, w1)
      | (Some f, w1) \<Rightarrow>
          (let f1 = fseek_end f w1; len = ftell f1 in
           if len \<le> 0 then (MENDER_NOT_FOUND, state, artifact_type, snd (fclose f1 w1))
           else if len < sizeof state + 2
           then (MENDER_FAIL, state, artifact_type, snd (fclose f1 w1))
           else
             (let f2 = fseek_set f1 in
              case fread (sizeof state) 1 f2 w1 of
                (moved, n_read, f3, w2) \<Rightarrow>
                  (let state1 = overlay moved state in
                   if n_read < 1 then (MENDER_FAIL, state1, artifact_type, snd (fclose f3 w2))
                   else
                     (case calloc (len - sizeof state + 1) 1 w2 of
                        (p, w3) \<Rightarrow>
                          if p = NULL then (MENDER_FAIL, state1, p, snd (fclose f3 w3))
                          else
                            (case fread 1 (len - sizeof state) f3 w3 of
                               (moved2, n_read2, f4, w4) \<Rightarrow>
                                 (let w5 = set_buffer p (overlay moved2) w4 in
                                  if n_read2 < len - sizeof state
                                  then (MENDER_FAIL, state1, p, snd (fclose f4 (free p w5)))
                                  else (MENDER_OK, state1, p, snd (fclose f4 w5)))))))))"

subsection \<open>Provides\<close>

text \<open>
  \<^verbatim>\<open>mender_utils_string_to_key_value_list\<close> is not part of the sources at hand; it
  is the parameter \<open>string_to_key_value_list\<close>, which reads the text at
  \<^verbatim>\<open>provides_str\<close> and yields its return code and the new \<^verbatim>\<open>*provides\<close>.
\<close>

definition mender_storage_get_provides ::
  "(world \<Rightarrow> ptr \<Rightarrow> 'kv \<Rightarrow> mender_err_t \<times> 'kv) \<Rightarrow> 'kv \<Rightarrow> world \<Rightarrow> mender_err_t \<times> 'kv \<times> world" where
  "mender_storage_get_provides string_to_key_value_list provides w =
     (case mender_storage_read_file MENDER_STORAGE_NVS_PROVIDES NULL 0 w of
        (r, provides_str, provides_length, w1) \<Rightarrow>
          if MENDER_OK \<noteq> r then (MENDER_NOT_FOUND, provides, w1)
          else
            (case string_to_key_value_list w1 provides_str provides of
               (r2, provides1) \<Rightarrow>
                 if MENDER_OK \<noteq> r2 then (MENDER_FAIL, provides1, free provides_str w1)
                 else (MENDER_OK, provides1, free provides_str w1)))"

subsection \<open>Artifact name\<close>

definition mender_storage_set_artifact_name :: "string \<Rightarrow> world \<Rightarrow> mender_err_t \<times> world" where
  "mender_storage_set_artifact_name artifact_name w =
     (let artifact_name_str_length = strlen artifact_name in
      case mender_storage_write_file MENDER_STORAGE_NVS_ARTICACT_NAME
             artifact_name artifact_name_str_length w of
        (r, w1) \<Rightarrow> if MENDER_OK \<noteq> r then (MENDER_FAIL, w1) else (MENDER_OK, w1))"

definition mender_storage_get_artifact_name :: "ptr \<Rightarrow> world \<Rightarrow> mender_err_t \<times> ptr \<times> world" where
  "mender_storage_get_artifact_name artifact_name w =
     (case mender_storage_read_file MENDER_STORAGE_NVS_ARTICACT_NAME artifact_name 0 w of
        (ret, artifact_name1, artifact_name_length, w1) \<Rightarrow>
          if MENDER_OK \<noteq> ret then
            (if MENDER_NOT_FOUND = ret
             then (case strdup ''unknown'' w1 of (p, w2) \<Rightarrow> (MENDER_OK, p, w2))
             else (ret, artifact_name1, w1))
          else (ret, artifact_name1, w1))"

section \<open>Worlds to run the store in\<close>

text \<open>
  A device with no stored item, no live allocation and no failing call, and the means
  to put an item there and to script the failures of the calls to come.
\<close>

definition fresh_device :: world where
  "fresh_device = \<lparr>files = Map.empty, heap = [], script = [], junk = (\<lambda>_. CHR 0xAA)\<rparr>"

definition put_file :: "string \<Rightarrow> string \<Rightarrow> world \<Rightarrow> world" where
  "put_file path content w = w\<lparr>files := (files w)(path \<mapsto> content)\<rparr>"

definition with_script :: "outcome list \<Rightarrow> world \<Rightarrow> world" where
  "with_script cs w = w\<lparr>script := cs\<rparr>"

text \<open>
  A device that holds every item, and a stand-in for the parser of the provides text
  that yields the length of the C string it is given.
\<close>

definition provisioned_device :: world where
  "provisioned_device =
     put_file MENDER_STORAGE_NVS_PRIVATE_KEY ''priv''
       (put_file MENDER_STORAGE_NVS_PUBLIC_KEY ''pub''
          (put_file MENDER_STORAGE_NVS_DEPLOYMENT_DATA ''{}''
             (put_file MENDER_STORAGE_NVS_ARTICACT_NAME ''v1''
                (put_file MENDER_STORAGE_NVS_PROVIDES ''a=b'' fresh_device))))"

definition count_provides :: "world \<Rightarrow> ptr \<Rightarrow> nat \<Rightarrow> mender_err_t \<times> nat" where
  "count_provides w p kv =
     (case buffer_at w p of None \<Rightarrow> (MENDER_FAIL, kv) | Some t \<Rightarrow> (MENDER_OK, strlen t))"

text \<open>A device whose update-state item holds a state value of four bytes and an artifact type.\<close>

definition device_with_update_state :: world where
  "device_with_update_state =
     put_file MENDER_STORAGE_NVS_UPDATE_STATE
       ([CHR 0x02, NUL, NUL, NUL] @ ''rootfs-image'') fresh_device"

section \<open>Facts about the C library model\<close>

lemma fresh_addr_bound: "(a, b) \<in> set h \<Longrightarrow> a < fresh_addr h"
  unfolding fresh_addr_def by (induction h) auto

lemma fresh_addr_free: "map_of h (fresh_addr h) = None"
  using fresh_addr_bound [of "fresh_addr h" _ h]
  by (cases "map_of h (fresh_addr h)") (auto dest: map_of_SomeD)

lemma fresh_addr_pos: "fresh_addr h \<noteq> NULL"
  by (simp add: fresh_addr_def)

lemma filter_fresh: "filter (\<lambda>(a, _). a \<noteq> fresh_addr h) h = h"
  using fresh_addr_bound [of _ _ h] by (auto simp: filter_id_conv)

lemma map_fresh: "map (\<lambda>(a, buf). if a = fresh_addr h then (a, f buf) else (a, buf)) h = h"
  by (rule map_idI) (fastforce dest: fresh_addr_bound)

lemma next_outcome_frame:
  "next_outcome w = (c, w1) \<Longrightarrow> files w1 = files w \<and> heap w1 = heap w \<and> junk w1 = junk w"
  by (auto simp: next_outcome_def split: list.splits)

lemma allocate_cases:
  assumes "allocate buf w = (p, w1)"
  shows "files w1 = files w \<and> junk w1 = junk w \<and>
         (if p = NULL then heap w1 = heap w
          else p = fresh_addr (heap w) \<and> heap w1 = (p, buf) # heap w)"
proof -
  obtain c w' where n: "next_outcome w = (c, w')"
    by (cases "next_outcome w")
  note fr = next_outcome_frame [OF n]
  show ?thesis
    using assms n fr by (cases c) (auto simp: allocate_def Let_def fresh_addr_pos)
qed


lemma fopen_rb_cases:
  assumes "fopen path RB w = (r, w1)"
  shows "files w1 = files w \<and> heap w1 = heap w \<and> junk w1 = junk w \<and>
         (case r of None \<Rightarrow> True
          | Some f \<Rightarrow> f = \<lparr>fpath = path, fpos = 0, fbuf = []\<rparr> \<and> files w path \<noteq> None)"
proof -
  obtain c w' where n: "next_outcome w = (c, w')"
    by (cases "next_outcome w")
  note fr = next_outcome_frame [OF n]
  show ?thesis
    using assms n fr by (cases c; cases "files w path") (auto simp: fopen_def)
qed

lemma fopen_rb_absent:
  assumes "files w path = None"
  shows "fst (fopen path RB w) = None"
proof -
  obtain c w' where n: "next_outcome w = (c, w')"
    by (cases "next_outcome w")
  note fr = next_outcome_frame [OF n]
  show ?thesis
    using assms n fr by (cases c) (auto simp: fopen_def)
qed

lemma fopen_wb_cases:
  assumes "fopen path WB w = (r, w1)"
  shows "heap w1 = heap w \<and> junk w1 = junk w \<and>
         (case r of None \<Rightarrow> files w1 = files w
          | Some f \<Rightarrow> f = \<lparr>fpath = path, fpos = 0, fbuf = []\<rparr> \<and> files w1 = (files w)(path \<mapsto> []))"
proof -
  obtain c w' where n: "next_outcome w = (c, w')"
    by (cases "next_outcome w")
  note fr = next_outcome_frame [OF n]
  show ?thesis
    using assms n fr by (cases c) (auto simp: fopen_def)
qed

lemma transfer_prefix: "\<exists>j. transfer c want = take j want"
proof (cases c)
  case Normal
  then have "transfer c want = take (length want) want" by (simp add: transfer_def)
  then show ?thesis ..
next
  case Refuse
  then have "transfer c want = take 0 want" by (simp add: transfer_def)
  then show ?thesis ..
next
  case (Short k)
  then have "transfer c want = take k want" by (simp add: transfer_def)
  then show ?thesis ..
qed

lemma take_full: "length (take j xs) = length xs \<Longrightarrow> take j xs = xs"
  by (metis length_take min_def take_all_iff order_refl)

lemma transfer_full: "length (transfer c want) = length want \<Longrightarrow> transfer c want = want"
  using transfer_prefix [of c want] take_full by metis

lemma transfer_length: "length (transfer c want) \<le> length want"
  using transfer_prefix [of c want] by (metis length_take min.cobounded1)

lemma fread_cases:
  assumes "fread sz n f w = (moved, k, f1, w1)"
  shows "files w1 = files w \<and> heap w1 = heap w \<and> junk w1 = junk w \<and> k = items sz moved \<and>
         (\<exists>c. moved = transfer c (take (sz * n) (drop (fpos f) (file_bytes w (fpath f)))))"
proof -
  obtain c w' where n: "next_outcome w = (c, w')"
    by (cases "next_outcome w")
  note fr = next_outcome_frame [OF n]
  have fb: "file_bytes w' (fpath f) = file_bytes w (fpath f)"
    using fr by (simp add: file_bytes_def)
  show ?thesis
    using assms n fr fb by (auto simp: fread_def Let_def)
qed

lemma fread_stream:
  assumes "fread sz n f w = (moved, k, f1, w1)"
  shows "f1 = f\<lparr>fpos := fpos f + length moved\<rparr>"
  using assms by (auto simp: fread_def Let_def split: prod.splits)

lemma fread_fbuf:
  assumes "fread sz n f w = (moved, k, f1, w1)"
  shows "fbuf f1 = fbuf f"
  using fread_stream [OF assms] by simp

lemma fbuf_fseek_end: "fbuf (fseek_end f w) = fbuf f"
  by (simp add: fseek_end_def)

lemma fbuf_fseek_set: "fbuf (fseek_set f) = fbuf f"
  by (simp add: fseek_set_def)

lemma fwrite_cases:
  assumes "fwrite data sz n f w = (k, f1, w1)"
  shows "files w1 = files w \<and> heap w1 = heap w \<and> junk w1 = junk w \<and>
         (\<exists>c. k = items sz (transfer c (take (sz * n) data)) \<and>
              f1 = f\<lparr>fbuf := fbuf f @ transfer c (take (sz * n) data)\<rparr>)"
proof -
  obtain c w' where n: "next_outcome w = (c, w')"
    by (cases "next_outcome w")
  note fr = next_outcome_frame [OF n]
  show ?thesis
    using assms n fr by (auto simp: fwrite_def Let_def)
qed

lemma close_idle: "fbuf f = [] \<Longrightarrow> snd (fclose f w) = w"
  by (simp add: fclose_def)

lemma fclose_cases:
  "heap (snd (fclose f w)) = heap w \<and> junk (snd (fclose f w)) = junk w \<and>
   (\<forall>q. q \<noteq> fpath f \<longrightarrow> files (snd (fclose f w)) q = files w q) \<and>
   (fbuf f \<noteq> [] \<longrightarrow>
      (\<exists>c. files (snd (fclose f w)) (fpath f)
             = Some (file_bytes w (fpath f) @ transfer c (fbuf f))))"
proof (cases "fbuf f = []")
  case True
  then show ?thesis
    by (simp add: close_idle)
next
  case False
  obtain c w' where n: "next_outcome w = (c, w')"
    by (cases "next_outcome w")
  note fr = next_outcome_frame [OF n]
  have fb: "file_bytes w' (fpath f) = file_bytes w (fpath f)"
    using fr by (simp add: file_bytes_def)
  show ?thesis
    using False n fr fb by (auto simp: fclose_def Let_def)
qed

lemmas close_simps = close_idle fbuf_fseek_end fbuf_fseek_set

lemma set_buffer_head:
  assumes "heap w = (p, buf) # h" and "p = fresh_addr h"
  shows "heap (set_buffer p f w) = (p, f buf) # h"
    and "files (set_buffer p f w) = files w"
    and "junk (set_buffer p f w) = junk w"
  using assms by (simp_all add: set_buffer_def map_fresh)

lemma free_head:
  assumes "heap w = (p, buf) # h" and "p = fresh_addr h"
  shows "heap (free p w) = h" and "files (free p w) = files w" and "junk (free p w) = junk w"
  using assms by (simp_all add: free_def filter_fresh)

lemma overlay_terminated:
  assumes "length buf = Suc (length c)"
  shows "overlay c (buf[length c := NUL]) = c @ [NUL]"
proof -
  have "drop (length c) (buf[length c := NUL]) = [NUL]"
    using assms by (simp add: drop_update_cancel Cons_nth_drop_Suc [symmetric] flip: upd_conv_take_nth_drop)
  then show ?thesis by (simp add: overlay_def)
qed


lemma items_one: "items 1 moved = length moved" "items (Suc 0) moved = length moved"
  by (simp_all add: items_def)

section \<open>The shared file reader and writer\<close>

lemma read_file_cases:
  assumes rf: "mender_storage_read_file path d l w = (r, p, n, w1)"
  shows "files w1 = files w \<and> junk w1 = junk w \<and>
    (case r of
       MENDER_OK \<Rightarrow>
         (\<exists>c. files w path = Some c \<and> c \<noteq> [] \<and> n = length c \<and> p = fresh_addr (heap w) \<and>
              heap w1 = (p, c @ [NUL]) # heap w)
     | MENDER_NOT_FOUND \<Rightarrow> p = d \<and> n = l \<and> heap w1 = heap w
     | MENDER_FAIL \<Rightarrow>
         heap w1 = heap w \<and> (p = NULL \<or> p = fresh_addr (heap w)) \<and>
         files w path \<noteq> None \<and> n = length (file_bytes w path)
     | MENDER_NOT_IMPLEMENTED \<Rightarrow> False)"
proof -
  obtain r0 wa where fo: "fopen path RB w = (r0, wa)"
    by (cases "fopen path RB w")
  note a = fopen_rb_cases [OF fo]
  show ?thesis
  proof (cases r0)
    case None
    then show ?thesis
      using rf fo a by (auto simp: mender_storage_read_file_def)
  next
    case (Some f)
    then obtain c where c: "files w path = Some c" and f: "f = \<lparr>fpath = path, fpos = 0, fbuf = []\<rparr>"
      using a by auto
    have len: "ftell (fseek_end f wa) = length c"
      using a c f by (simp add: ftell_def fseek_end_def file_bytes_def)
    have fb: "file_bytes w path = c"
      using c by (simp add: file_bytes_def)
    show ?thesis
    proof (cases "c = []")
      case True
      then show ?thesis
        using rf fo Some a len f
        by (auto simp: mender_storage_read_file_def Let_def close_simps)
    next
      case False
      obtain q wb where ma: "malloc (length c + 1) wa = (q, wb)"
        by (cases "malloc (length c + 1) wa")
      note b = allocate_cases [OF ma [unfolded malloc_def]]
      show ?thesis
      proof (cases "q = NULL")
        case True
        then show ?thesis
          using rf fo Some a len False ma b c fb f
          by (auto simp: mender_storage_read_file_def Let_def close_simps)
      next
        case qn: False
        define jb where "jb = map (junk wa) [0..<length c + 1]"
        have hb: "heap wb = (q, jb) # heap w" and q: "q = fresh_addr (heap w)"
          using b qn a by (simp_all add: jb_def)
        define wc where "wc = set_buffer q (\<lambda>buf. buf[length c := NUL]) wb"
        have hc: "heap wc = (q, jb[length c := NUL]) # heap w"
          and fc: "files wc = files w" and jc: "junk wc = junk w"
          using set_buffer_head [OF hb q] b a by (simp_all add: wc_def)
        obtain moved k f3 wd where fr: "fread 1 (length c) (fseek_set (fseek_end f wa)) wc = (moved, k, f3, wd)"
          by (cases "fread 1 (length c) (fseek_set (fseek_end f wa)) wc") auto
        note d = fread_cases [OF fr]
        have fbc: "file_bytes wc path = c"
          using fc c by (simp add: file_bytes_def)
        obtain oc where moved: "moved = transfer oc c" and k: "k = length moved"
          using d fbc f by (auto simp: fseek_set_def fseek_end_def items_one)
        have hd: "heap wd = (q, jb[length c := NUL]) # heap w"
          and fd: "files wd = files w" and jd: "junk wd = junk w"
          using d hc fc jc by simp_all
        define we where "we = set_buffer q (overlay moved) wd"
        have he: "heap we = (q, overlay moved (jb[length c := NUL])) # heap w"
          and fe: "files we = files w" and je: "junk we = junk w"
          using set_buffer_head [OF hd q] fd jd by (simp_all add: we_def)
        have res: "(r, p, n, w1) =
            (if k \<noteq> length c then (MENDER_FAIL, q, length c, free q we)
             else (MENDER_OK, q, length c, we))"
          using rf fo Some len False ma qn fr fread_fbuf [OF fr] f
          by (auto simp: mender_storage_read_file_def Let_def wc_def we_def close_simps)
        show ?thesis
        proof (cases "k = length c")
          case True
          then have "moved = c"
            using moved k transfer_full by metis
          then have "heap we = (q, c @ [NUL]) # heap w"
            using he overlay_terminated [of jb c] by (simp add: jb_def)
          then show ?thesis
            using res True fe je c False q by simp
        next
          case kf: False
          have "heap (free q we) = heap w" "files (free q we) = files w" "junk (free q we) = junk w"
            using free_head [OF he q] fe je by simp_all
          then show ?thesis
            using res kf c fb q by simp
        qed
      qed
    qed
  qed
qed

lemma read_file_OK:
  assumes "mender_storage_read_file path d l w = (MENDER_OK, p, n, w1)"
  shows "\<exists>c. files w path = Some c \<and> c \<noteq> [] \<and> n = length c \<and> p = fresh_addr (heap w) \<and>
             heap w1 = (p, c @ [NUL]) # heap w \<and> files w1 = files w"
  using read_file_cases [OF assms] by auto

lemma read_file_codes:
  "fst (mender_storage_read_file path d l w) \<in> {MENDER_OK, MENDER_NOT_FOUND, MENDER_FAIL}"
proof -
  obtain r p n w1 where e: "mender_storage_read_file path d l w = (r, p, n, w1)"
    by (cases "mender_storage_read_file path d l w") auto
  show ?thesis
    using read_file_cases [OF e] e by (cases r) auto
qed


lemma next_outcome_quiet: "script w = [] \<Longrightarrow> next_outcome w = (Normal, w)"
  by (simp add: next_outcome_def)

lemma allocate_quiet:
  "script w = [] \<Longrightarrow>
     allocate buf w = (fresh_addr (heap w), w\<lparr>heap := (fresh_addr (heap w), buf) # heap w\<rparr>)"
  by (simp add: allocate_def next_outcome_quiet Let_def)

lemma fopen_rb_quiet:
  "script w = [] \<Longrightarrow> files w path = Some c \<Longrightarrow>
     fopen path RB w = (Some \<lparr>fpath = path, fpos = 0, fbuf = []\<rparr>, w)"
  by (simp add: fopen_def next_outcome_quiet)

lemma fopen_rb_script: "script w = [] \<Longrightarrow> script (snd (fopen path RB w)) = []"
  by (simp add: fopen_def next_outcome_quiet split: option.splits)

lemma read_file_nothing:
  assumes "file_bytes w path = []"
  shows "mender_storage_read_file path d l w = (MENDER_NOT_FOUND, d, l, snd (fopen path RB w))"
proof -
  obtain r0 wa where fo: "fopen path RB w = (r0, wa)"
    by (cases "fopen path RB w")
  note a = fopen_rb_cases [OF fo]
  show ?thesis
  proof (cases r0)
    case None
    then show ?thesis
      using fo by (simp add: mender_storage_read_file_def)
  next
    case (Some f)
    then have "ftell (fseek_end f wa) = 0" and "fbuf f = []"
      using a assms by (simp_all add: ftell_def fseek_end_def file_bytes_def)
    then show ?thesis
      using fo Some by (simp add: mender_storage_read_file_def Let_def close_simps)
  qed
qed

lemma write_file_cases:
  assumes wf: "mender_storage_write_file path data n w = (r, w1)"
  shows "heap w1 = heap w \<and> junk w1 = junk w \<and> (\<forall>q. q \<noteq> path \<longrightarrow> files w1 q = files w q) \<and>
    (case r of
       MENDER_OK \<Rightarrow> n \<le> length data \<and> (\<exists>j. files w1 path = Some (take j (take n data)))
     | MENDER_FAIL \<Rightarrow> True
     | MENDER_NOT_FOUND \<Rightarrow> False
     | MENDER_NOT_IMPLEMENTED \<Rightarrow> False)"
proof -
  obtain r0 wa where fo: "fopen path WB w = (r0, wa)"
    by (cases "fopen path WB w")
  note a = fopen_wb_cases [OF fo]
  show ?thesis
  proof (cases r0)
    case None
    then show ?thesis
      using wf fo a by (auto simp: mender_storage_write_file_def)
  next
    case (Some f)
    then have f: "f = \<lparr>fpath = path, fpos = 0, fbuf = []\<rparr>"
      and fa: "files wa = (files w)(path \<mapsto> [])"
      and ha: "heap wa = heap w" "junk wa = junk w"
      using a by auto
    obtain k f1 wb where fw: "fwrite data 1 n f wa = (k, f1, wb)"
      by (cases "fwrite data 1 n f wa") auto
    from fwrite_cases [OF fw] obtain c where
      k: "k = length (transfer c (take n data))"
      and f1: "fpath f1 = path" "fbuf f1 = transfer c (take n data)"
      and fb: "files wb = files wa" and hb: "heap wb = heap wa" "junk wb = junk wa"
      using f by (auto simp: items_one)
    let ?wc = "snd (fclose f1 wb)"
    note cl = fclose_cases [of f1 wb]
    have fba: "file_bytes wb path = []"
      using fa fb by (simp add: file_bytes_def)
    have res: "(r, w1) = (if k \<noteq> n then MENDER_FAIL else MENDER_OK, ?wc)"
      using wf fo Some fw by (auto simp: mender_storage_write_file_def split: if_splits)
    have frame: "heap ?wc = heap w" "junk ?wc = junk w"
      "\<forall>q. q \<noteq> path \<longrightarrow> files ?wc q = files w q"
      using cl f1 fb fa ha hb by simp_all
    show ?thesis
    proof (cases "k = n")
      case True
      have "n \<le> length (take n data)"
        using transfer_length [of c "take n data"] k True by simp
      then have n: "n \<le> length data" by simp
      then have "length (transfer c (take n data)) = length (take n data)"
        using k True by simp
      then have full: "fbuf f1 = take n data"
        using f1 transfer_full by metis
      have "\<exists>j. files ?wc path = Some (take j (take n data))"
      proof (cases "fbuf f1 = []")
        case True
        then have "files ?wc path = Some (take 0 (take n data))"
          using fb fa by (simp add: close_idle)
        then show ?thesis ..
      next
        case False
        then obtain c2 where "files ?wc path = Some (transfer c2 (take n data))"
          using cl f1 full fba by auto
        then show ?thesis
          using transfer_prefix [of c2 "take n data"] by auto
      qed
      then show ?thesis
        using res True n frame by simp
    next
      case False
      then show ?thesis
        using res frame by simp
    qed
  qed
qed


lemma read_file_absent:
  "files w path = None \<Longrightarrow>
     mender_storage_read_file path d l w = (MENDER_NOT_FOUND, d, l, snd (fopen path RB w))"
  by (rule read_file_nothing) (simp add: file_bytes_def)

lemma fopen_rb_frame:
  "files (snd (fopen path RB w)) = files w \<and> heap (snd (fopen path RB w)) = heap w"
  using fopen_rb_cases [of path w "fst (fopen path RB w)" "snd (fopen path RB w)"] by simp

lemma strdup_unknown: "take (strlen ''unknown'') ''unknown'' @ [NUL] = ''unknown'' @ [NUL]"
  by (simp add: strlen_def)

lemma get_artifact_name_default:
  assumes blank: "file_bytes w MENDER_STORAGE_NVS_ARTICACT_NAME = []"
    and g: "mender_storage_get_artifact_name an w = (r, p, w2)"
  shows "r = MENDER_OK \<and> (p \<noteq> NULL \<longrightarrow> buffer_at w2 p = Some (''unknown'' @ [NUL])) \<and>
         (script w = [] \<longrightarrow> p \<noteq> NULL) \<and> files w2 = files w"
proof -
  let ?w1 = "snd (fopen MENDER_STORAGE_NVS_ARTICACT_NAME RB w)"
  obtain q wb where sd: "strdup ''unknown'' ?w1 = (q, wb)"
    by (cases "strdup ''unknown'' ?w1")
  have rf: "mender_storage_read_file MENDER_STORAGE_NVS_ARTICACT_NAME an 0 w
      = (MENDER_NOT_FOUND, an, 0, ?w1)"
    using blank by (rule read_file_nothing)
  have res: "(r, p, w2) = (MENDER_OK, q, wb)"
    using g rf sd by (simp add: mender_storage_get_artifact_name_def)
  note al = allocate_cases [OF sd [unfolded strdup_def strdup_unknown]]
  have "q \<noteq> NULL \<longrightarrow> buffer_at wb q = Some (''unknown'' @ [NUL])"
    using al by (auto simp: buffer_at_def)
  moreover have "script w = [] \<longrightarrow> q \<noteq> NULL"
  proof
    assume "script w = []"
    then have "script ?w1 = []" by (rule fopen_rb_script)
    from allocate_quiet [OF this] sd have "q = fresh_addr (heap ?w1)"
      by (simp add: strdup_def)
    then show "q \<noteq> NULL"
      by (simp add: fresh_addr_pos)
  qed
  moreover have "files wb = files w"
    using al fopen_rb_frame [of MENDER_STORAGE_NVS_ARTICACT_NAME w] by simp
  ultimately show ?thesis
    using res by simp
qed

lemma read_file_opened:
  assumes c: "files w path = Some c" and ne: "c \<noteq> []"
    and fo: "fopen path RB w = (Some f, w1)"
    and ma: "malloc (length c + 1) w1 = (q, wb)"
    and fr: "fread 1 (length c) (fseek_set (fseek_end f w1))
               (set_buffer q (\<lambda>buf. buf[length c := NUL]) wb) = (moved, k, f3, w4)"
  shows "fst (mender_storage_read_file path d l w)
           = (if q = NULL \<or> k \<noteq> length c then MENDER_FAIL else MENDER_OK)"
proof -
  have f: "f = \<lparr>fpath = path, fpos = 0, fbuf = []\<rparr>" and fw: "files w1 = files w"
    using fopen_rb_cases [OF fo] by simp_all
  have len: "ftell (fseek_end f w1) = length c"
    using c f fw by (simp add: ftell_def fseek_end_def file_bytes_def)
  show ?thesis
    using fo len ne ma fr f fread_fbuf [OF fr]
    by (auto simp: mender_storage_read_file_def Let_def close_simps)
qed



section \<open>The update-state record\<close>

lemma get_update_state_short:
  assumes short: "length (file_bytes w MENDER_STORAGE_NVS_UPDATE_STATE) < sizeof st + 2"
  shows "mender_storage_get_update_state st at w =
     (if fst (fopen MENDER_STORAGE_NVS_UPDATE_STATE RB w) = None \<or>
         file_bytes w MENDER_STORAGE_NVS_UPDATE_STATE = []
      then MENDER_NOT_FOUND else MENDER_FAIL,
      st, at, snd (fopen MENDER_STORAGE_NVS_UPDATE_STATE RB w))"
proof -
  obtain r0 wa where fo: "fopen MENDER_STORAGE_NVS_UPDATE_STATE RB w = (r0, wa)"
    by (cases "fopen MENDER_STORAGE_NVS_UPDATE_STATE RB w")
  note a = fopen_rb_cases [OF fo]
  show ?thesis
  proof (cases r0)
    case None
    then show ?thesis
      using fo by (simp add: mender_storage_get_update_state_def)
  next
    case (Some f)
    then have "ftell (fseek_end f wa) = length (file_bytes w MENDER_STORAGE_NVS_UPDATE_STATE)"
      and "fbuf f = []"
      using a by (simp_all add: ftell_def fseek_end_def file_bytes_def)
    then show ?thesis
      using fo Some short
      by (simp add: mender_storage_get_update_state_def Let_def close_simps)
  qed
qed

lemma get_update_state_quiet:
  assumes c: "files w MENDER_STORAGE_NVS_UPDATE_STATE = Some c"
    and long: "sizeof st + 2 \<le> length c"
    and st: "st \<noteq> []"
    and quiet: "script w = []"
  shows "mender_storage_get_update_state st at w =
     (MENDER_OK, take (sizeof st) c, fresh_addr (heap w),
      w\<lparr>heap := (fresh_addr (heap w), drop (sizeof st) c @ [NUL]) # heap w\<rparr>)"
proof -
  let ?sz = "length st"
  let ?f = "\<lparr>fpath = MENDER_STORAGE_NVS_UPDATE_STATE, fpos = 0, fbuf = []\<rparr>"
  have sz: "0 < ?sz" "?sz + 2 \<le> length c"
    using st long by (simp_all add: sizeof_def)
  have fo: "fopen MENDER_STORAGE_NVS_UPDATE_STATE RB w = (Some ?f, w)"
    using quiet c by (rule fopen_rb_quiet)
  have len: "ftell (fseek_end ?f w) = length c"
    using c by (simp add: ftell_def fseek_end_def file_bytes_def)
  have r1: "fread ?sz 1 (fseek_set (fseek_end ?f w)) w =
      (take ?sz c, 1, \<lparr>fpath = MENDER_STORAGE_NVS_UPDATE_STATE, fpos = ?sz, fbuf = []\<rparr>, w)"
    using c quiet sz
    by (simp add: fread_def next_outcome_quiet fseek_set_def fseek_end_def file_bytes_def
        transfer_def items_def Let_def min_def)
  have ov: "overlay (take ?sz c) st = take ?sz c"
    using sz by (simp add: overlay_def min_def)
  let ?p = "fresh_addr (heap w)"
  let ?w3 = "w\<lparr>heap := (?p, replicate (length c - ?sz + 1) NUL) # heap w\<rparr>"
  have ca: "calloc (length c - ?sz + 1) 1 w = (?p, ?w3)"
    using quiet by (simp add: calloc_def allocate_quiet)
  have r2: "fread 1 (length c - ?sz) \<lparr>fpath = MENDER_STORAGE_NVS_UPDATE_STATE, fpos = ?sz, fbuf = []\<rparr> ?w3 =
      (drop ?sz c, length c - ?sz,
       \<lparr>fpath = MENDER_STORAGE_NVS_UPDATE_STATE, fpos = length c, fbuf = []\<rparr>, ?w3)"
    using c quiet sz
    by (simp add: fread_def next_outcome_quiet file_bytes_def transfer_def items_def Let_def)
  have "drop (length c - ?sz) (replicate (Suc (length c - ?sz)) NUL)
      = replicate (Suc (length c - ?sz) - (length c - ?sz)) NUL"
    by (rule drop_replicate)
  also have "\<dots> = [NUL]"
    by simp
  finally have ov2:
    "overlay (drop ?sz c) (replicate (length c - ?sz + 1) NUL) = drop ?sz c @ [NUL]"
    by (simp add: overlay_def del: replicate_Suc)
  have sb: "set_buffer ?p (overlay (drop ?sz c)) ?w3 = w\<lparr>heap := (?p, drop ?sz c @ [NUL]) # heap w\<rparr>"
    using ov2 by (simp add: set_buffer_def map_fresh)
  have cne: "c \<noteq> []"
    using sz by auto
  show ?thesis
    using fo len r1 ov ca r2 sb sz cne
    by (simp add: mender_storage_get_update_state_def Let_def sizeof_def fresh_addr_pos
        close_idle)
qed

lemma strlen_le: "strlen s \<le> length s"
  by (simp add: strlen_def length_takeWhile_le)

lemma strlen_no_nul:
  assumes "NUL \<notin> set s"
  shows "strlen s = length s" and "take (strlen s) s = s"
proof -
  have tw: "takeWhile (\<lambda>c. c \<noteq> NUL) s = s"
    using assms by (induction s) auto
  show "strlen s = length s"
    unfolding strlen_def tw ..
  then show "take (strlen s) s = s"
    by simp
qed

lemma save_update_state_OK:
  assumes sv: "mender_storage_save_update_state state artifact_type w = (MENDER_OK, w1)"
  shows "\<exists>j. files w1 MENDER_STORAGE_NVS_UPDATE_STATE
           = Some (take j (state @ take (strlen artifact_type) artifact_type))"
proof -
  let ?U = MENDER_STORAGE_NVS_UPDATE_STATE
  let ?all = "state @ take (strlen artifact_type) artifact_type"
  obtain r0 wa where fo: "fopen ?U WB w = (r0, wa)"
    by (cases "fopen ?U WB w")
  note a = fopen_wb_cases [OF fo]
  show ?thesis
  proof (cases r0)
    case None
    then show ?thesis
      using sv fo by (simp add: mender_storage_save_update_state_def)
  next
    case (Some f)
    then have f: "f = \<lparr>fpath = ?U, fpos = 0, fbuf = []\<rparr>"
      and fa: "files wa = (files w)(?U \<mapsto> [])"
      using a by auto
    obtain k f1 wb where w1: "fwrite state 1 (sizeof state) f wa = (k, f1, wb)"
      by (cases "fwrite state 1 (sizeof state) f wa") auto
    from fwrite_cases [OF w1] obtain c1 where
      k: "k = length (transfer c1 state)"
      and f1: "fpath f1 = ?U" "fbuf f1 = transfer c1 state"
      and fb: "files wb = files wa"
      using f by (auto simp: items_one sizeof_def)
    let ?n = "strlen artifact_type"
    obtain m f2 wc where w2: "fwrite artifact_type 1 ?n f1 wb = (m, f2, wc)"
      by (cases "fwrite artifact_type 1 ?n f1 wb") auto
    from fwrite_cases [OF w2] obtain c2 where
      m: "m = length (transfer c2 (take ?n artifact_type))"
      and f2: "fpath f2 = ?U" "fbuf f2 = fbuf f1 @ transfer c2 (take ?n artifact_type)"
      and fc: "files wc = files wb"
      using f1 by (auto simp: items_one)
    have res: "k = sizeof state \<and> m = ?n \<and> w1 = snd (fclose f2 wc)"
      using sv fo Some w1 w2
      by (auto simp: mender_storage_save_update_state_def Let_def split: if_splits)
    have t1: "transfer c1 state = state"
      using res k by (intro transfer_full) (simp add: sizeof_def)
    have "length (take ?n artifact_type) = ?n"
      using strlen_le [of artifact_type] by simp
    then have t2: "transfer c2 (take ?n artifact_type) = take ?n artifact_type"
      using res m by (intro transfer_full) simp
    have pend: "fbuf f2 = ?all"
      using f2 f1 t1 t2 by simp
    have fbc: "file_bytes wc ?U = []" and fcu: "files wc ?U = Some []"
      using fa fb fc by (simp_all add: file_bytes_def)
    note cl = fclose_cases [of f2 wc]
    show ?thesis
    proof (cases "?all = []")
      case True
      then have "files w1 ?U = Some (take 0 ?all)"
        using res pend fcu by (simp add: close_idle)
      then show ?thesis ..
    next
      case False
      then obtain c3 where "files w1 ?U = Some (transfer c3 ?all)"
        using cl res pend f2 fbc by auto
      then show ?thesis
        using transfer_prefix [of c3 ?all] by auto
    qed
  qed
qed

lemma save_update_state_quiet:
  assumes "script w = []"
  shows "mender_storage_save_update_state state artifact_type w =
     (MENDER_OK,
      w\<lparr>files := (files w)(MENDER_STORAGE_NVS_UPDATE_STATE \<mapsto>
                  state @ take (strlen artifact_type) artifact_type)\<rparr>)"
  using assms strlen_le [of artifact_type]
  by (auto simp: mender_storage_save_update_state_def fopen_def fwrite_def fclose_def
      next_outcome_quiet transfer_def items_def sizeof_def file_bytes_def Let_def)

lemma zero_tail: "drop n (replicate (Suc n) NUL) = [NUL]"
proof -
  have "drop n (replicate (Suc n) NUL) = replicate (Suc n - n) NUL"
    by (rule drop_replicate)
  also have "\<dots> = [NUL]"
    by simp
  finally show ?thesis .
qed

lemma get_update_state_cases:
  assumes g: "mender_storage_get_update_state st at w = (r, st1, p, w1)"
  shows "files w1 = files w \<and>
    (case r of
       MENDER_OK \<Rightarrow>
         (\<exists>c. files w MENDER_STORAGE_NVS_UPDATE_STATE = Some c \<and> sizeof st + 2 \<le> length c \<and>
              st1 = take (sizeof st) c \<and> p = fresh_addr (heap w) \<and>
              heap w1 = (p, drop (sizeof st) c @ [NUL]) # heap w)
     | MENDER_NOT_FOUND \<Rightarrow> st1 = st \<and> p = at \<and> heap w1 = heap w
     | MENDER_FAIL \<Rightarrow>
         heap w1 = heap w \<and>
         (\<exists>j. st1 = overlay (take j (file_bytes w MENDER_STORAGE_NVS_UPDATE_STATE)) st) \<and>
         (p = at \<or> p = NULL \<or> p = fresh_addr (heap w))
     | MENDER_NOT_IMPLEMENTED \<Rightarrow> False)"
proof -
  let ?U = MENDER_STORAGE_NVS_UPDATE_STATE
  let ?sz = "sizeof st"
  have ov0: "\<exists>j. st = overlay (take j (file_bytes w ?U)) st"
    by (rule exI [of _ 0]) (simp add: overlay_def)
  obtain r0 wa where fo: "fopen ?U RB w = (r0, wa)"
    by (cases "fopen ?U RB w")
  note a = fopen_rb_cases [OF fo]
  show ?thesis
  proof (cases "length (file_bytes w ?U) < ?sz + 2")
    case True
    from get_update_state_short [OF True, of at] g fo a ov0
    show ?thesis
      by (auto split: if_splits)
  next
    case long: False
    then have "file_bytes w ?U \<noteq> []"
      by auto
    then obtain c where c: "files w ?U = Some c" and fb: "file_bytes w ?U = c"
      by (cases "files w ?U") (auto simp: file_bytes_def)
    have len: "?sz + 2 \<le> length c" and cne: "c \<noteq> []"
      using long fb by auto
    show ?thesis
    proof (cases r0)
      case None
      then show ?thesis
        using g fo a by (auto simp: mender_storage_get_update_state_def)
    next
      case (Some f)
      then have f: "f = \<lparr>fpath = ?U, fpos = 0, fbuf = []\<rparr>"
        and fa: "files wa = files w" and ha: "heap wa = heap w"
        using a by auto
      have fba: "file_bytes wa ?U = c"
        using fa c by (simp add: file_bytes_def)
      have tell: "ftell (fseek_end f wa) = length c"
        using f fba by (simp add: ftell_def fseek_end_def)
      let ?f2 = "fseek_set (fseek_end f wa)"
      have f2: "?f2 = \<lparr>fpath = ?U, fpos = 0, fbuf = []\<rparr>"
        using f by (simp add: fseek_set_def fseek_end_def)
      obtain m1 k1 f3 wb where fr1: "fread ?sz 1 ?f2 wa = (m1, k1, f3, wb)"
        by (cases "fread ?sz 1 ?f2 wa") auto
      from fread_cases [OF fr1] obtain c1 where
        m1: "m1 = transfer c1 (take ?sz c)" and k1: "k1 = items ?sz m1"
        and fb1: "files wb = files w" and hb: "heap wb = heap w"
        using f2 fba fa ha by auto
      have f3: "f3 = \<lparr>fpath = ?U, fpos = length m1, fbuf = []\<rparr>"
        using fread_stream [OF fr1] f2 by simp
      obtain j1 where j1: "m1 = take j1 (take ?sz c)"
        using transfer_prefix [of c1 "take ?sz c"] m1 by auto
      then have pre1: "m1 = take (min j1 ?sz) (file_bytes w ?U)"
        using fb by (simp add: min.commute)
      let ?st1 = "overlay m1 st"
      show ?thesis
      proof (cases "k1 < 1")
        case True
        then have "(r, st1, p, w1) = (MENDER_FAIL, ?st1, at, wb)"
          using g fo Some tell cne len fr1 f fread_fbuf [OF fr1]
          by (auto simp: mender_storage_get_update_state_def Let_def close_simps)
        then show ?thesis
          using fb1 hb pre1 by auto
      next
        case False
        then have szp: "0 < ?sz" and ge: "?sz \<le> length m1"
          using k1 by (auto simp: items_def div_greater_zero_iff split: if_splits)
        have "length m1 \<le> length (take ?sz c)"
          using transfer_length [of c1 "take ?sz c"] m1 by simp
        then have "length m1 = length (take ?sz c)"
          using ge len by simp
        then have m1c: "m1 = take ?sz c"
          using m1 transfer_full by metis
        have lm: "length m1 = ?sz"
          using m1c len by simp
        have st1: "?st1 = take ?sz c"
          using m1c len by (simp add: overlay_def sizeof_def)
        have pre: "\<exists>j. take ?sz c = overlay (take j (file_bytes w ?U)) st"
          using st1 m1c fb by metis
        let ?n = "length c - ?sz"
        obtain q wc where ca: "calloc (?n + 1) 1 wb = (q, wc)"
          by (cases "calloc (?n + 1) 1 wb")
        note b = allocate_cases [OF ca [unfolded calloc_def]]
        show ?thesis
        proof (cases "q = NULL")
          case True
          then have "(r, st1, p, w1) = (MENDER_FAIL, take ?sz c, NULL, wc)"
            using g fo Some tell cne len fr1 False st1 ca f fread_fbuf [OF fr1]
            by (auto simp: mender_storage_get_update_state_def Let_def close_simps)
          then show ?thesis
            using b True fb1 hb pre by auto
        next
          case qn: False
          have q: "q = fresh_addr (heap w)"
            and hc: "heap wc = (q, replicate (Suc ?n) NUL) # heap w"
            and fc: "files wc = files w"
            using b qn hb fb1 by simp_all
          obtain m2 k2 f4 wd where fr2: "fread 1 ?n f3 wc = (m2, k2, f4, wd)"
            by (cases "fread 1 ?n f3 wc") auto
          have fbc: "file_bytes wc ?U = c"
            using fc c by (simp add: file_bytes_def)
          from fread_cases [OF fr2] obtain c2 where
            m2: "m2 = transfer c2 (drop ?sz c)" and k2: "k2 = length m2"
            and fd: "files wd = files w" and hd: "heap wd = (q, replicate (Suc ?n) NUL) # heap w"
            using f3 lm fbc fc hc by (auto simp: items_one)
          let ?we = "set_buffer q (overlay m2) wd"
          have he: "heap ?we = (q, overlay m2 (replicate (Suc ?n) NUL)) # heap w"
            and fe: "files ?we = files w"
            using set_buffer_head [OF hd q] fd by simp_all
          have res: "(r, st1, p, w1) =
              (if k2 < ?n then (MENDER_FAIL, take ?sz c, q, free q ?we)
               else (MENDER_OK, take ?sz c, q, ?we))"
            using g fo Some tell cne len fr1 False st1 ca qn fr2 f
              fread_fbuf [OF fr1] fread_fbuf [OF fr2]
            by (auto simp: mender_storage_get_update_state_def Let_def close_simps)
          show ?thesis
          proof (cases "k2 < ?n")
            case True
            have "heap (free q ?we) = heap w" "files (free q ?we) = files w"
              using free_head [OF he q] fe by simp_all
            then show ?thesis
              using res True pre q by auto
          next
            case full: False
            have "length m2 \<le> length (drop ?sz c)"
              using transfer_length [of c2 "drop ?sz c"] m2 by simp
            then have "length m2 = length (drop ?sz c)"
              using full k2 by simp
            then have m2c: "m2 = drop ?sz c"
              using m2 transfer_full by metis
            have "overlay m2 (replicate (Suc ?n) NUL) = drop ?sz c @ [NUL]"
              using m2c zero_tail [of ?n] by (simp add: overlay_def del: replicate_Suc)
            then show ?thesis
              using res full he fe c len q by simp
          qed
        qed
      qed
    qed
  qed
qed

section \<open>Claims about the store\<close>

text \<open>
  Claim C1, as the code has it. For every state value (of positive size) and every
  artifact type that is a C string of at least two bytes, when no call fails the
  save succeeds and the read that follows returns \<^verbatim>\<open>MENDER_OK\<close> with the same
  state and the same artifact type (as a NUL-terminated string in a fresh buffer).
  The same holds for a read without a failing call in any later world that holds
  the item as a successful save left it, provided all the bytes of that save reached
  the file.
\<close>

theorem update_state_round_trip:
  assumes cstr: "NUL \<notin> set artifact_type"
    and two: "2 \<le> length artifact_type"
    and pos: "state \<noteq> []"
    and same: "sizeof st0 = sizeof state"
  shows "(script w = [] \<longrightarrow>
            (\<exists>w1 p w3.
                mender_storage_save_update_state state artifact_type w = (MENDER_OK, w1) \<and>
                mender_storage_get_update_state st0 at0 w1 = (MENDER_OK, state, p, w3) \<and>
                p \<noteq> NULL \<and> buffer_at w3 p = Some (artifact_type @ [NUL])))
     \<and> (mender_storage_save_update_state state artifact_type w = (MENDER_OK, w1) \<and>
          length (file_bytes w1 MENDER_STORAGE_NVS_UPDATE_STATE)
            = sizeof state + length artifact_type \<and>
          files w2 MENDER_STORAGE_NVS_UPDATE_STATE = files w1 MENDER_STORAGE_NVS_UPDATE_STATE \<and>
          script w2 = [] \<longrightarrow>
            (\<exists>p w3. mender_storage_get_update_state st0 at0 w2 = (MENDER_OK, state, p, w3) \<and>
                    p \<noteq> NULL \<and> buffer_at w3 p = Some (artifact_type @ [NUL])))"
proof -
  let ?U = MENDER_STORAGE_NVS_UPDATE_STATE
  let ?all = "state @ artifact_type"
  have long: "sizeof st0 + 2 \<le> length ?all"
    using same two by (simp add: sizeof_def)
  have st0: "st0 \<noteq> []"
    using same pos by (auto simp: sizeof_def)
  have core: "\<exists>p w3. mender_storage_get_update_state st0 at0 v = (MENDER_OK, state, p, w3) \<and>
      p \<noteq> NULL \<and> buffer_at w3 p = Some (artifact_type @ [NUL])"
    if c: "files v ?U = Some ?all" and q: "script v = []" for v
  proof -
    let ?p = "fresh_addr (heap v)"
    let ?w3 = "v\<lparr>heap := (?p, drop (sizeof st0) ?all @ [NUL]) # heap v\<rparr>"
    have g: "mender_storage_get_update_state st0 at0 v =
        (MENDER_OK, take (sizeof st0) ?all, ?p, ?w3)"
      using c long st0 q by (rule get_update_state_quiet)
    have "mender_storage_get_update_state st0 at0 v = (MENDER_OK, state, ?p, ?w3) \<and>
        ?p \<noteq> NULL \<and> buffer_at ?w3 ?p = Some (artifact_type @ [NUL])"
      using g same by (simp add: sizeof_def buffer_at_def fresh_addr_pos)
    then show ?thesis
      by blast
  qed
  have first: "\<exists>w1 p w3.
      mender_storage_save_update_state state artifact_type w = (MENDER_OK, w1) \<and>
      mender_storage_get_update_state st0 at0 w1 = (MENDER_OK, state, p, w3) \<and>
      p \<noteq> NULL \<and> buffer_at w3 p = Some (artifact_type @ [NUL])"
    if quiet: "script w = []"
  proof -
    let ?w1 = "w\<lparr>files := (files w)(?U \<mapsto> ?all)\<rparr>"
    have sv: "mender_storage_save_update_state state artifact_type w = (MENDER_OK, ?w1)"
      using save_update_state_quiet [OF quiet, of state artifact_type] strlen_no_nul [OF cstr]
      by simp
    have "files ?w1 ?U = Some ?all" and "script ?w1 = []"
      using quiet by simp_all
    from core [OF this] sv show ?thesis
      by blast
  qed
  have second: "\<exists>p w3. mender_storage_get_update_state st0 at0 w2 = (MENDER_OK, state, p, w3) \<and>
      p \<noteq> NULL \<and> buffer_at w3 p = Some (artifact_type @ [NUL])"
    if sv: "mender_storage_save_update_state state artifact_type w = (MENDER_OK, w1)"
      and all: "length (file_bytes w1 ?U) = sizeof state + length artifact_type"
      and kept: "files w2 ?U = files w1 ?U"
      and quiet: "script w2 = []"
  proof -
    obtain j where j: "files w1 ?U = Some (take j ?all)"
      using save_update_state_OK [OF sv] strlen_no_nul [OF cstr] by auto
    then have "length (take j ?all) = length ?all"
      using all by (simp add: file_bytes_def sizeof_def)
    then have "take j ?all = ?all"
      by (rule take_full)
    then have "files w2 ?U = Some ?all"
      using j kept by simp
    from core [OF this quiet] show ?thesis .
  qed
  show ?thesis
    using first second by blast
qed

theorem update_state_round_trip_witness:
  "NUL \<notin> set ''rootfs-image'' \<and> 2 \<le> length ''rootfs-image''
   \<and> script fresh_device = []
   \<and> fst (mender_storage_save_update_state [CHR 0x02, NUL, NUL, NUL] ''rootfs-image''
          fresh_device) = MENDER_OK
   \<and> length (file_bytes
          (snd (mender_storage_save_update_state [CHR 0x02, NUL, NUL, NUL] ''rootfs-image''
             fresh_device)) MENDER_STORAGE_NVS_UPDATE_STATE) = 16
   \<and> (case mender_storage_get_update_state [NUL, NUL, NUL, NUL] NULL
            (snd (mender_storage_save_update_state [CHR 0x02, NUL, NUL, NUL] ''rootfs-image''
               fresh_device)) of
        (r, st, p, w3) \<Rightarrow>
          r = MENDER_OK \<and> st = [CHR 0x02, NUL, NUL, NUL] \<and>
          buffer_at w3 p = Some (''rootfs-image'' @ [NUL]))"
proof -
  let ?st = "[CHR 0x02, NUL, NUL, NUL]"
  let ?old = "[NUL, NUL, NUL, NUL]"
  let ?S = "mender_storage_save_update_state ?st ''rootfs-image'' fresh_device"
  have h: "NUL \<notin> set ''rootfs-image''" "2 \<le> length ''rootfs-image''" "?st \<noteq> []"
    "sizeof ?old = sizeof ?st"
    by (simp_all add: sizeof_def)
  have q: "script fresh_device = []" "script (snd ?S) = []"
    "length (file_bytes (snd ?S) MENDER_STORAGE_NVS_UPDATE_STATE) = 16"
    by code_simp+
  note t = update_state_round_trip [OF h, of fresh_device NULL "snd ?S" "snd ?S"]
  obtain w1 where ok: "?S = (MENDER_OK, w1)"
    using t q by auto
  with t q obtain p w3 where
    "mender_storage_get_update_state ?old NULL (snd ?S) = (MENDER_OK, ?st, p, w3)"
    "buffer_at w3 p = Some (''rootfs-image'' @ [NUL])"
    by (auto simp: sizeof_def)
  then show ?thesis
    using h q ok by simp
qed

text \<open>
  Claim C1 as stated fails for the artifact types of length zero and one: the save
  succeeds and the read that follows returns \<^verbatim>\<open>MENDER_FAIL\<close>.
\<close>

theorem update_state_round_trip_fails_for_short_type:
  "fst (mender_storage_save_update_state [CHR 0x02, NUL, NUL, NUL] [] fresh_device) = MENDER_OK
   \<and> fst (mender_storage_get_update_state [NUL, NUL, NUL, NUL] NULL
          (snd (mender_storage_save_update_state [CHR 0x02, NUL, NUL, NUL] []
             fresh_device))) = MENDER_FAIL
   \<and> fst (mender_storage_save_update_state [CHR 0x02, NUL, NUL, NUL] ''x'' fresh_device)
        = MENDER_OK
   \<and> fst (mender_storage_get_update_state [NUL, NUL, NUL, NUL] NULL
          (snd (mender_storage_save_update_state [CHR 0x02, NUL, NUL, NUL] ''x''
             fresh_device))) = MENDER_FAIL"
  by code_simp

text \<open>
  Claim C2, as the code has it. A record that holds one state value followed by fewer
  than two bytes of artifact type, a zero-length type included, is below the minimum
  valid length: once opened it is answered with \<^verbatim>\<open>MENDER_FAIL\<close> and the caller's
  variables stay as they were. The minimum valid record is one state value followed
  by two bytes of artifact type; it is decoded with \<^verbatim>\<open>MENDER_OK\<close> when no call
  fails.
\<close>

theorem minimum_update_state_record:
  "(files w MENDER_STORAGE_NVS_UPDATE_STATE = Some c \<and> c \<noteq> [] \<and>
      sizeof st \<le> length c \<and> length c < sizeof st + 2 \<and>
      fst (fopen MENDER_STORAGE_NVS_UPDATE_STATE RB w) \<noteq> None \<longrightarrow>
        mender_storage_get_update_state st at w
          = (MENDER_FAIL, st, at, snd (fopen MENDER_STORAGE_NVS_UPDATE_STATE RB w)))
   \<and> (files w MENDER_STORAGE_NVS_UPDATE_STATE = Some d \<and> length d = sizeof st + 2 \<and>
        st \<noteq> [] \<and> script w = [] \<longrightarrow>
        (\<exists>p w1. mender_storage_get_update_state st at w = (MENDER_OK, take (sizeof st) d, p, w1) \<and>
                p \<noteq> NULL \<and> buffer_at w1 p = Some (drop (sizeof st) d @ [NUL])))"
proof (intro conjI impI)
  assume a: "files w MENDER_STORAGE_NVS_UPDATE_STATE = Some c \<and> c \<noteq> [] \<and>
      sizeof st \<le> length c \<and> length c < sizeof st + 2 \<and>
      fst (fopen MENDER_STORAGE_NVS_UPDATE_STATE RB w) \<noteq> None"
  then have fb: "file_bytes w MENDER_STORAGE_NVS_UPDATE_STATE = c"
    by (simp add: file_bytes_def)
  then have "length (file_bytes w MENDER_STORAGE_NVS_UPDATE_STATE) < sizeof st + 2"
    using a by simp
  from get_update_state_short [OF this, of at] a fb
  show "mender_storage_get_update_state st at w
      = (MENDER_FAIL, st, at, snd (fopen MENDER_STORAGE_NVS_UPDATE_STATE RB w))"
    by simp
next
  assume a: "files w MENDER_STORAGE_NVS_UPDATE_STATE = Some d \<and> length d = sizeof st + 2 \<and>
      st \<noteq> [] \<and> script w = []"
  let ?p = "fresh_addr (heap w)"
  let ?w1 = "w\<lparr>heap := (?p, drop (sizeof st) d @ [NUL]) # heap w\<rparr>"
  have "mender_storage_get_update_state st at w = (MENDER_OK, take (sizeof st) d, ?p, ?w1)"
    using a by (intro get_update_state_quiet) simp_all
  then have "mender_storage_get_update_state st at w = (MENDER_OK, take (sizeof st) d, ?p, ?w1) \<and>
      ?p \<noteq> NULL \<and> buffer_at ?w1 ?p = Some (drop (sizeof st) d @ [NUL])"
    by (simp add: buffer_at_def fresh_addr_pos)
  then show "\<exists>p w1. mender_storage_get_update_state st at w
        = (MENDER_OK, take (sizeof st) d, p, w1) \<and>
      p \<noteq> NULL \<and> buffer_at w1 p = Some (drop (sizeof st) d @ [NUL])"
    by blast
qed

theorem minimum_update_state_record_witness:
  "mender_storage_get_update_state [NUL, NUL, NUL, NUL] 7
      (put_file MENDER_STORAGE_NVS_UPDATE_STATE [CHR 0x02, NUL, NUL, NUL] fresh_device)
     = (MENDER_FAIL, [NUL, NUL, NUL, NUL], 7,
        snd (fopen MENDER_STORAGE_NVS_UPDATE_STATE RB
          (put_file MENDER_STORAGE_NVS_UPDATE_STATE [CHR 0x02, NUL, NUL, NUL] fresh_device)))
   \<and> (case mender_storage_get_update_state [NUL, NUL, NUL, NUL] 7
            (put_file MENDER_STORAGE_NVS_UPDATE_STATE ([CHR 0x02, NUL, NUL, NUL] @ ''fs'')
               fresh_device) of
        (r, st, p, w1) \<Rightarrow>
          r = MENDER_OK \<and> st = [CHR 0x02, NUL, NUL, NUL] \<and> buffer_at w1 p = Some (''fs'' @ [NUL]))"
proof -
  let ?old = "[NUL, NUL, NUL, NUL]"
  let ?A = "put_file MENDER_STORAGE_NVS_UPDATE_STATE [CHR 0x02, NUL, NUL, NUL] fresh_device"
  let ?B = "put_file MENDER_STORAGE_NVS_UPDATE_STATE ([CHR 0x02, NUL, NUL, NUL] @ ''fs'')
      fresh_device"
  have a: "files ?A MENDER_STORAGE_NVS_UPDATE_STATE = Some [CHR 0x02, NUL, NUL, NUL]"
    "fst (fopen MENDER_STORAGE_NVS_UPDATE_STATE RB ?A) \<noteq> None"
    by code_simp+
  have b: "files ?B MENDER_STORAGE_NVS_UPDATE_STATE = Some ([CHR 0x02, NUL, NUL, NUL] @ ''fs'')"
    "script ?B = []"
    by code_simp+
  have "mender_storage_get_update_state ?old 7 ?A
      = (MENDER_FAIL, ?old, 7, snd (fopen MENDER_STORAGE_NVS_UPDATE_STATE RB ?A))"
    using minimum_update_state_record [of ?A "[CHR 0x02, NUL, NUL, NUL]" ?old 7 "[]",
        THEN conjunct1] a
    by (simp add: sizeof_def)
  moreover obtain p w1 where
    "mender_storage_get_update_state ?old 7 ?B = (MENDER_OK, [CHR 0x02, NUL, NUL, NUL], p, w1)"
    "buffer_at w1 p = Some (''fs'' @ [NUL])"
    using minimum_update_state_record [of ?B "[]" ?old 7 "[CHR 0x02, NUL, NUL, NUL] @ ''fs''",
        THEN conjunct2] b
    by (auto simp: sizeof_def)
  ultimately show ?thesis
    by simp
qed

text \<open>
  Claim C2 as stated fails: a record of exactly one state value and a zero-length
  artifact type is answered with \<^verbatim>\<open>MENDER_FAIL\<close>.
\<close>

theorem state_only_record_is_rejected:
  "fst (mender_storage_get_update_state [NUL, NUL, NUL, NUL] NULL
          (put_file MENDER_STORAGE_NVS_UPDATE_STATE [CHR 0x02, NUL, NUL, NUL] fresh_device))
     = MENDER_FAIL"
  by code_simp

text \<open>
  Claim C3. \<^verbatim>\<open>mender_storage_get_update_state\<close> returns \<^verbatim>\<open>MENDER_NOT_FOUND\<close>
  when the update-state item is absent or empty, and \<^verbatim>\<open>MENDER_FAIL\<close> for every
  record that can be opened, is not empty and is shorter than the size of a state
  value plus two. In all these cases the caller's \<^verbatim>\<open>*state\<close> and
  \<^verbatim>\<open>*artifact_type\<close> are returned as they came in, nothing is allocated and no
  item changes.
\<close>

theorem get_update_state_absent_empty_short:
  "(files w MENDER_STORAGE_NVS_UPDATE_STATE = None \<or>
    files w MENDER_STORAGE_NVS_UPDATE_STATE = Some [] \<longrightarrow>
      mender_storage_get_update_state st at w
        = (MENDER_NOT_FOUND, st, at, snd (fopen MENDER_STORAGE_NVS_UPDATE_STATE RB w)))
   \<and> (files w MENDER_STORAGE_NVS_UPDATE_STATE = Some c \<and> c \<noteq> [] \<and>
        length c < sizeof st + 2 \<and>
        fst (fopen MENDER_STORAGE_NVS_UPDATE_STATE RB w) \<noteq> None \<longrightarrow>
      mender_storage_get_update_state st at w
        = (MENDER_FAIL, st, at, snd (fopen MENDER_STORAGE_NVS_UPDATE_STATE RB w)))
   \<and> heap (snd (fopen MENDER_STORAGE_NVS_UPDATE_STATE RB w)) = heap w
   \<and> files (snd (fopen MENDER_STORAGE_NVS_UPDATE_STATE RB w)) = files w"
proof (intro conjI impI)
  assume "files w MENDER_STORAGE_NVS_UPDATE_STATE = None \<or>
    files w MENDER_STORAGE_NVS_UPDATE_STATE = Some []"
  then have fb: "file_bytes w MENDER_STORAGE_NVS_UPDATE_STATE = []"
    by (auto simp: file_bytes_def)
  then have "length (file_bytes w MENDER_STORAGE_NVS_UPDATE_STATE) < sizeof st + 2"
    by simp
  from get_update_state_short [OF this, of at] fb
  show "mender_storage_get_update_state st at w
      = (MENDER_NOT_FOUND, st, at, snd (fopen MENDER_STORAGE_NVS_UPDATE_STATE RB w))"
    by simp
next
  assume a: "files w MENDER_STORAGE_NVS_UPDATE_STATE = Some c \<and> c \<noteq> [] \<and>
      length c < sizeof st + 2 \<and> fst (fopen MENDER_STORAGE_NVS_UPDATE_STATE RB w) \<noteq> None"
  then have fb: "file_bytes w MENDER_STORAGE_NVS_UPDATE_STATE = c"
    by (simp add: file_bytes_def)
  then have "length (file_bytes w MENDER_STORAGE_NVS_UPDATE_STATE) < sizeof st + 2"
    using a by simp
  from get_update_state_short [OF this, of at] a fb
  show "mender_storage_get_update_state st at w
      = (MENDER_FAIL, st, at, snd (fopen MENDER_STORAGE_NVS_UPDATE_STATE RB w))"
    by simp
next
  show "heap (snd (fopen MENDER_STORAGE_NVS_UPDATE_STATE RB w)) = heap w"
    and "files (snd (fopen MENDER_STORAGE_NVS_UPDATE_STATE RB w)) = files w"
    using fopen_rb_frame [of MENDER_STORAGE_NVS_UPDATE_STATE w] by simp_all
qed

theorem get_update_state_absent_empty_short_witness:
  "fst (mender_storage_get_update_state [NUL, NUL, NUL, NUL] 7 fresh_device) = MENDER_NOT_FOUND
   \<and> fst (mender_storage_get_update_state [NUL, NUL, NUL, NUL] 7
          (put_file MENDER_STORAGE_NVS_UPDATE_STATE [] fresh_device)) = MENDER_NOT_FOUND
   \<and> (case mender_storage_get_update_state [NUL, NUL, NUL, NUL] 7
            (put_file MENDER_STORAGE_NVS_UPDATE_STATE [CHR 0x02, NUL, NUL] fresh_device) of
        (r, st, p, w1) \<Rightarrow> r = MENDER_FAIL \<and> st = [NUL, NUL, NUL, NUL] \<and> p = 7 \<and> heap w1 = [])
   \<and> (case mender_storage_get_update_state [NUL, NUL, NUL, NUL] 7
            (put_file MENDER_STORAGE_NVS_UPDATE_STATE [CHR 0x02, NUL, NUL, NUL, CHR ''r'']
               fresh_device) of
        (r, st, p, w1) \<Rightarrow> r = MENDER_FAIL \<and> st = [NUL, NUL, NUL, NUL] \<and> p = 7 \<and> heap w1 = [])"
proof -
  let ?old = "[NUL, NUL, NUL, NUL]"
  let ?E = "put_file MENDER_STORAGE_NVS_UPDATE_STATE [] fresh_device"
  let ?A = "put_file MENDER_STORAGE_NVS_UPDATE_STATE [CHR 0x02, NUL, NUL] fresh_device"
  let ?B = "put_file MENDER_STORAGE_NVS_UPDATE_STATE [CHR 0x02, NUL, NUL, NUL, CHR ''r'']
      fresh_device"
  have n: "files fresh_device MENDER_STORAGE_NVS_UPDATE_STATE = None"
    "files ?E MENDER_STORAGE_NVS_UPDATE_STATE = Some []"
    by code_simp+
  have a: "files ?A MENDER_STORAGE_NVS_UPDATE_STATE = Some [CHR 0x02, NUL, NUL]"
    "fst (fopen MENDER_STORAGE_NVS_UPDATE_STATE RB ?A) \<noteq> None" "heap ?A = []"
    by code_simp+
  have b: "files ?B MENDER_STORAGE_NVS_UPDATE_STATE = Some [CHR 0x02, NUL, NUL, NUL, CHR ''r'']"
    "fst (fopen MENDER_STORAGE_NVS_UPDATE_STATE RB ?B) \<noteq> None" "heap ?B = []"
    by code_simp+
  have "fst (mender_storage_get_update_state ?old 7 fresh_device) = MENDER_NOT_FOUND"
    using get_update_state_absent_empty_short [of fresh_device ?old 7] n by simp
  moreover have "fst (mender_storage_get_update_state ?old 7 ?E) = MENDER_NOT_FOUND"
    using get_update_state_absent_empty_short [of ?E ?old 7] n by simp
  moreover have "mender_storage_get_update_state ?old 7 ?A
      = (MENDER_FAIL, ?old, 7, snd (fopen MENDER_STORAGE_NVS_UPDATE_STATE RB ?A)) \<and>
      heap (snd (fopen MENDER_STORAGE_NVS_UPDATE_STATE RB ?A)) = []"
    using get_update_state_absent_empty_short [of ?A ?old 7 "[CHR 0x02, NUL, NUL]"] a
    by (simp add: sizeof_def)
  moreover have "mender_storage_get_update_state ?old 7 ?B
      = (MENDER_FAIL, ?old, 7, snd (fopen MENDER_STORAGE_NVS_UPDATE_STATE RB ?B)) \<and>
      heap (snd (fopen MENDER_STORAGE_NVS_UPDATE_STATE RB ?B)) = []"
    using get_update_state_absent_empty_short [of ?B ?old 7 "[CHR 0x02, NUL, NUL, NUL, CHR ''r'']"] b
    by (simp add: sizeof_def)
  ultimately show ?thesis
    by simp
qed

text \<open>
  Claim C4. When the public-key item is absent, \<^verbatim>\<open>mender_storage_get_authentication_keys\<close>
  returns \<^verbatim>\<open>MENDER_NOT_FOUND\<close>. When the private key had been read before (its
  buffer \<open>p\<close> was allocated), that buffer is released (the heap is as it was before
  the call), the caller's private-key pointer is \<^verbatim>\<open>NULL\<close> and its length \<open>0\<close>,
  and the caller's public-key variables are untouched: no half of a key pair comes
  out.
\<close>

theorem partial_key_pair_is_withheld:
  assumes pub: "files w MENDER_STORAGE_NVS_PUBLIC_KEY = None"
  shows "fst (mender_storage_get_authentication_keys a al b bl w) = MENDER_NOT_FOUND \<and>
    (mender_storage_read_file MENDER_STORAGE_NVS_PRIVATE_KEY a al w = (MENDER_OK, p, n, w1) \<longrightarrow>
       p \<noteq> NULL \<and> buffer_at w1 p \<noteq> None \<and>
       (\<exists>w2. mender_storage_get_authentication_keys a al b bl w
               = (MENDER_NOT_FOUND, NULL, 0, b, bl, w2) \<and>
             buffer_at w2 p = None \<and> heap w2 = heap w \<and> files w2 = files w))"
proof (intro conjI impI)
  show "fst (mender_storage_get_authentication_keys a al b bl w) = MENDER_NOT_FOUND"
  proof -
    obtain r1 p1 n1 wa where e1:
      "mender_storage_read_file MENDER_STORAGE_NVS_PRIVATE_KEY a al w = (r1, p1, n1, wa)"
      by (cases "mender_storage_read_file MENDER_STORAGE_NVS_PRIVATE_KEY a al w") auto
    have "files wa MENDER_STORAGE_NVS_PUBLIC_KEY = None"
      using read_file_cases [OF e1] pub by simp
    from read_file_absent [OF this] e1 show ?thesis
      by (simp add: mender_storage_get_authentication_keys_def)
  qed
next
  assume e1: "mender_storage_read_file MENDER_STORAGE_NVS_PRIVATE_KEY a al w = (MENDER_OK, p, n, w1)"
  from read_file_OK [OF e1] obtain c where
    c: "p = fresh_addr (heap w)" "heap w1 = (p, c @ [NUL]) # heap w" "files w1 = files w"
    by auto
  show "p \<noteq> NULL"
    using c fresh_addr_pos by simp
  show "buffer_at w1 p \<noteq> None"
    using c by (simp add: buffer_at_def)
  let ?wb = "snd (fopen MENDER_STORAGE_NVS_PUBLIC_KEY RB w1)"
  have e2: "mender_storage_read_file MENDER_STORAGE_NVS_PUBLIC_KEY b bl w1
      = (MENDER_NOT_FOUND, b, bl, ?wb)"
    using read_file_absent [of w1 MENDER_STORAGE_NVS_PUBLIC_KEY] pub c by simp
  have hb: "heap ?wb = (p, c @ [NUL]) # heap w" and fb: "files ?wb = files w"
    using fopen_rb_frame [of MENDER_STORAGE_NVS_PUBLIC_KEY w1] c by simp_all
  have g: "mender_storage_get_authentication_keys a al b bl w
      = (MENDER_NOT_FOUND, NULL, 0, b, bl, free p ?wb)"
    using e1 e2 by (simp add: mender_storage_get_authentication_keys_def)
  have h: "heap (free p ?wb) = heap w" and f: "files (free p ?wb) = files w"
    using free_head [OF hb c(1)] fb by simp_all
  have "buffer_at (free p ?wb) p = None"
    using h c fresh_addr_free by (simp add: buffer_at_def)
  with g h f
  show "\<exists>w2. mender_storage_get_authentication_keys a al b bl w
               = (MENDER_NOT_FOUND, NULL, 0, b, bl, w2) \<and>
             buffer_at w2 p = None \<and> heap w2 = heap w \<and> files w2 = files w"
    by blast
qed

theorem partial_key_pair_is_withheld_witness:
  "files (put_file MENDER_STORAGE_NVS_PRIVATE_KEY ''priv'' fresh_device)
     MENDER_STORAGE_NVS_PUBLIC_KEY = None
   \<and> fst (mender_storage_read_file MENDER_STORAGE_NVS_PRIVATE_KEY 7 9
          (put_file MENDER_STORAGE_NVS_PRIVATE_KEY ''priv'' fresh_device)) = MENDER_OK
   \<and> (case mender_storage_get_authentication_keys 7 9 5 6
            (put_file MENDER_STORAGE_NVS_PRIVATE_KEY ''priv'' fresh_device) of
        (r, pk, pkl, pub, publ, w2) \<Rightarrow>
          r = MENDER_NOT_FOUND \<and> pk = NULL \<and> pkl = 0 \<and> pub = 5 \<and> publ = 6 \<and> heap w2 = [])"
proof -
  let ?W = "put_file MENDER_STORAGE_NVS_PRIVATE_KEY ''priv'' fresh_device"
  have pub: "files ?W MENDER_STORAGE_NVS_PUBLIC_KEY = None"
    by code_simp
  have ok: "fst (mender_storage_read_file MENDER_STORAGE_NVS_PRIVATE_KEY 7 9 ?W) = MENDER_OK"
    by code_simp
  obtain r1 p n w1 where e1:
    "mender_storage_read_file MENDER_STORAGE_NVS_PRIVATE_KEY 7 9 ?W = (r1, p, n, w1)"
    by (cases "mender_storage_read_file MENDER_STORAGE_NVS_PRIVATE_KEY 7 9 ?W") auto
  with ok have e: "mender_storage_read_file MENDER_STORAGE_NVS_PRIVATE_KEY 7 9 ?W
      = (MENDER_OK, p, n, w1)"
    by simp
  have h0: "heap ?W = []"
    by code_simp
  from partial_key_pair_is_withheld [OF pub, of 7 9 5 6 p n w1] e h0
  obtain w2 where "mender_storage_get_authentication_keys 7 9 5 6 ?W
      = (MENDER_NOT_FOUND, NULL, 0, 5, 6, w2)" "heap w2 = []"
    by auto
  then show ?thesis
    using pub ok by simp
qed

text \<open>
  Claim C5, as the code has it. Whenever \<^verbatim>\<open>mender_storage_get_update_state\<close>
  returns a result other than \<^verbatim>\<open>MENDER_OK\<close>, the result is
  \<^verbatim>\<open>MENDER_NOT_FOUND\<close> or \<^verbatim>\<open>MENDER_FAIL\<close>, no item has changed and no buffer
  for the artifact type stays allocated: a buffer that was filled in part is
  released. When the record is absent, empty or too short, the caller's
  \<^verbatim>\<open>*state\<close> and \<^verbatim>\<open>*artifact_type\<close> are as they came in. A result of
  \<^verbatim>\<open>MENDER_OK\<close> always carries the whole record: the state from its first
  \<^verbatim>\<open>sizeof(state)\<close> bytes and all the remaining bytes as the artifact type,
  never a truncated one.
\<close>

theorem failed_update_state_read_returns_nothing:
  assumes g: "mender_storage_get_update_state st at w = (r, st1, p, w1)"
  shows "(r \<noteq> MENDER_OK \<longrightarrow>
            (r = MENDER_NOT_FOUND \<or> r = MENDER_FAIL) \<and> heap w1 = heap w \<and> files w1 = files w)
     \<and> (length (file_bytes w MENDER_STORAGE_NVS_UPDATE_STATE) < sizeof st + 2 \<longrightarrow>
            r \<noteq> MENDER_OK \<and> st1 = st \<and> p = at)
     \<and> (r = MENDER_OK \<longrightarrow>
            (\<exists>c. files w MENDER_STORAGE_NVS_UPDATE_STATE = Some c \<and> sizeof st + 2 \<le> length c \<and>
                 st1 = take (sizeof st) c \<and> p \<noteq> NULL \<and>
                 buffer_at w1 p = Some (drop (sizeof st) c @ [NUL])))"
proof -
  note c = get_update_state_cases [OF g]
  have a: "(r = MENDER_NOT_FOUND \<or> r = MENDER_FAIL) \<and> heap w1 = heap w \<and> files w1 = files w"
    if "r \<noteq> MENDER_OK"
    using c that by (cases r) auto
  have b: "r \<noteq> MENDER_OK \<and> st1 = st \<and> p = at"
    if "length (file_bytes w MENDER_STORAGE_NVS_UPDATE_STATE) < sizeof st + 2"
    using get_update_state_short [OF that, of at] g by (auto split: if_splits)
  have d: "\<exists>c. files w MENDER_STORAGE_NVS_UPDATE_STATE = Some c \<and> sizeof st + 2 \<le> length c \<and>
      st1 = take (sizeof st) c \<and> p \<noteq> NULL \<and> buffer_at w1 p = Some (drop (sizeof st) c @ [NUL])"
    if "r = MENDER_OK"
    using c that fresh_addr_pos [of "heap w"] by (auto simp: buffer_at_def)
  show ?thesis
    using a b d by blast
qed

theorem failed_update_state_read_returns_nothing_witness:
  "(case mender_storage_get_update_state [NUL, NUL, NUL, NUL] 7
          (with_script [Normal, Normal, Normal, Short 3] device_with_update_state) of
      (r, st1, p, w1) \<Rightarrow> r = MENDER_FAIL \<and> heap w1 = [])
   \<and> (case mender_storage_get_update_state [NUL, NUL, NUL, NUL] 7
          (put_file MENDER_STORAGE_NVS_UPDATE_STATE [CHR 0x02, NUL, NUL] fresh_device) of
      (r, st1, p, w1) \<Rightarrow> r = MENDER_FAIL \<and> st1 = [NUL, NUL, NUL, NUL] \<and> p = 7)
   \<and> (case mender_storage_get_update_state [NUL, NUL, NUL, NUL] 7 device_with_update_state of
      (r, st1, p, w1) \<Rightarrow>
        r = MENDER_OK \<and> st1 = [CHR 0x02, NUL, NUL, NUL] \<and>
        buffer_at w1 p = Some (''rootfs-image'' @ [NUL]))"
proof -
  let ?old = "[NUL, NUL, NUL, NUL]"
  let ?A = "with_script [Normal, Normal, Normal, Short 3] device_with_update_state"
  let ?B = "put_file MENDER_STORAGE_NVS_UPDATE_STATE [CHR 0x02, NUL, NUL] fresh_device"
  let ?C = device_with_update_state
  obtain ra sa pa wa where ga: "mender_storage_get_update_state ?old 7 ?A = (ra, sa, pa, wa)"
    by (cases "mender_storage_get_update_state ?old 7 ?A") auto
  obtain rb sb pb wb where gb: "mender_storage_get_update_state ?old 7 ?B = (rb, sb, pb, wb)"
    by (cases "mender_storage_get_update_state ?old 7 ?B") auto
  obtain rc sc pc wc where gc: "mender_storage_get_update_state ?old 7 ?C = (rc, sc, pc, wc)"
    by (cases "mender_storage_get_update_state ?old 7 ?C") auto
  have "fst (mender_storage_get_update_state ?old 7 ?A) = MENDER_FAIL"
    "fst (mender_storage_get_update_state ?old 7 ?B) = MENDER_FAIL"
    "fst (mender_storage_get_update_state ?old 7 ?C) = MENDER_OK"
    by code_simp+
  then have r: "ra = MENDER_FAIL" "rb = MENDER_FAIL" "rc = MENDER_OK"
    using ga gb gc by simp_all
  have h: "heap ?A = []"
    "length (file_bytes ?B MENDER_STORAGE_NVS_UPDATE_STATE) < sizeof ?old + 2"
    "files ?C MENDER_STORAGE_NVS_UPDATE_STATE = Some ([CHR 0x02, NUL, NUL, NUL] @ ''rootfs-image'')"
    by code_simp+
  have "heap wa = []"
    using failed_update_state_read_returns_nothing [OF ga] r h by simp
  moreover have "sb = ?old \<and> pb = 7"
    using failed_update_state_read_returns_nothing [OF gb] h by simp
  moreover have "sc = [CHR 0x02, NUL, NUL, NUL] \<and> buffer_at wc pc = Some (''rootfs-image'' @ [NUL])"
    using failed_update_state_read_returns_nothing [OF gc] r h by (auto simp: sizeof_def)
  ultimately show ?thesis
    using ga gb gc r by simp
qed

text \<open>
  Claim C5 as stated fails. With a well-formed record stored, a failure after the
  state value was read makes \<^verbatim>\<open>mender_storage_get_update_state\<close> return
  \<^verbatim>\<open>MENDER_FAIL\<close> while the caller's \<^verbatim>\<open>*state\<close> already holds the state that
  was read from the record: when \<^verbatim>\<open>calloc\<close> fails, and when the read of the
  artifact type comes up short. In the latter case \<^verbatim>\<open>*artifact_type\<close> still
  holds the address of the buffer that was released.
\<close>

theorem get_update_state_failure_leaves_decoded_state:
  "fst (mender_storage_get_update_state [NUL, NUL, NUL, NUL] NULL
          (with_script [Normal, Normal, Refuse] device_with_update_state)) = MENDER_FAIL
   \<and> fst (snd (mender_storage_get_update_state [NUL, NUL, NUL, NUL] NULL
          (with_script [Normal, Normal, Refuse] device_with_update_state)))
        = [CHR 0x02, NUL, NUL, NUL]
   \<and> fst (mender_storage_get_update_state [NUL, NUL, NUL, NUL] NULL
          (with_script [Normal, Normal, Normal, Short 3] device_with_update_state)) = MENDER_FAIL
   \<and> fst (snd (mender_storage_get_update_state [NUL, NUL, NUL, NUL] NULL
          (with_script [Normal, Normal, Normal, Short 3] device_with_update_state)))
        = [CHR 0x02, NUL, NUL, NUL]
   \<and> fst (snd (snd (mender_storage_get_update_state [NUL, NUL, NUL, NUL] NULL
          (with_script [Normal, Normal, Normal, Short 3] device_with_update_state)))) = 1
   \<and> buffer_at
        (snd (snd (snd (mender_storage_get_update_state [NUL, NUL, NUL, NUL] NULL
          (with_script [Normal, Normal, Normal, Short 3] device_with_update_state))))) 1 = None"
  by code_simp

text \<open>
  Claim C6, as the code has it. \<^verbatim>\<open>mender_storage_get_deployment_data\<close> returns
  \<^verbatim>\<open>MENDER_NOT_FOUND\<close> whenever the deployment-data item is absent or empty, and
  it returns \<^verbatim>\<open>MENDER_OK\<close> exactly when the shared reader succeeds.
\<close>

theorem get_deployment_data_not_found_or_ok:
  "(files w MENDER_STORAGE_NVS_DEPLOYMENT_DATA = None \<or>
    files w MENDER_STORAGE_NVS_DEPLOYMENT_DATA = Some [] \<longrightarrow>
      fst (mender_storage_get_deployment_data dd w) = MENDER_NOT_FOUND)
   \<and> ((fst (mender_storage_get_deployment_data dd w) = MENDER_OK)
        = (fst (mender_storage_read_file MENDER_STORAGE_NVS_DEPLOYMENT_DATA dd 0 w) = MENDER_OK))"
proof -
  let ?D = MENDER_STORAGE_NVS_DEPLOYMENT_DATA
  obtain r p n w1 where e: "mender_storage_read_file ?D dd 0 w = (r, p, n, w1)"
    by (cases "mender_storage_read_file ?D dd 0 w") auto
  have g: "fst (mender_storage_get_deployment_data dd w)
      = (if r = MENDER_OK then MENDER_OK else MENDER_NOT_FOUND)"
    using e by (simp add: mender_storage_get_deployment_data_def)
  have "r = MENDER_NOT_FOUND" if "files w ?D = None \<or> files w ?D = Some []"
  proof -
    have "file_bytes w ?D = []"
      using that by (auto simp: file_bytes_def)
    then have "mender_storage_read_file ?D dd 0 w = (MENDER_NOT_FOUND, dd, 0, snd (fopen ?D RB w))"
      by (rule read_file_nothing)
    with e show ?thesis by simp
  qed
  then show ?thesis
    using g e by auto
qed

theorem get_deployment_data_not_found_or_ok_witness:
  "files fresh_device MENDER_STORAGE_NVS_DEPLOYMENT_DATA = None
   \<and> fst (mender_storage_get_deployment_data NULL fresh_device) = MENDER_NOT_FOUND
   \<and> files (put_file MENDER_STORAGE_NVS_DEPLOYMENT_DATA [] fresh_device)
        MENDER_STORAGE_NVS_DEPLOYMENT_DATA = Some []
   \<and> fst (mender_storage_get_deployment_data NULL
          (put_file MENDER_STORAGE_NVS_DEPLOYMENT_DATA [] fresh_device)) = MENDER_NOT_FOUND
   \<and> fst (mender_storage_read_file MENDER_STORAGE_NVS_DEPLOYMENT_DATA NULL 0
          provisioned_device) = MENDER_OK
   \<and> fst (mender_storage_get_deployment_data NULL provisioned_device) = MENDER_OK"
proof -
  let ?E = "put_file MENDER_STORAGE_NVS_DEPLOYMENT_DATA [] fresh_device"
  have a: "files fresh_device MENDER_STORAGE_NVS_DEPLOYMENT_DATA = None"
    "files ?E MENDER_STORAGE_NVS_DEPLOYMENT_DATA = Some []"
    "fst (mender_storage_read_file MENDER_STORAGE_NVS_DEPLOYMENT_DATA NULL 0
      provisioned_device) = MENDER_OK"
    by code_simp+
  show ?thesis
    using a
      get_deployment_data_not_found_or_ok [of fresh_device NULL]
      get_deployment_data_not_found_or_ok [of ?E NULL]
      get_deployment_data_not_found_or_ok [of provisioned_device NULL]
    by simp
qed

text \<open>
  Claim C6 as stated fails. The result is \<^verbatim>\<open>MENDER_NOT_FOUND\<close> for an item that
  exists and is empty, and it is \<^verbatim>\<open>MENDER_NOT_FOUND\<close> again, not
  \<^verbatim>\<open>MENDER_FAIL\<close>, when the item exists and the allocation of the read buffer
  fails.
\<close>

theorem get_deployment_data_not_found_for_present_item:
  "files (put_file MENDER_STORAGE_NVS_DEPLOYMENT_DATA [] fresh_device)
     MENDER_STORAGE_NVS_DEPLOYMENT_DATA = Some []
   \<and> fst (mender_storage_get_deployment_data NULL
          (put_file MENDER_STORAGE_NVS_DEPLOYMENT_DATA [] fresh_device)) = MENDER_NOT_FOUND
   \<and> files (with_script [Normal, Refuse] provisioned_device)
        MENDER_STORAGE_NVS_DEPLOYMENT_DATA = Some ''{}''
   \<and> fst (malloc 3 (snd (fopen MENDER_STORAGE_NVS_DEPLOYMENT_DATA RB
          (with_script [Normal, Refuse] provisioned_device)))) = NULL
   \<and> fst (mender_storage_get_deployment_data NULL
          (with_script [Normal, Refuse] provisioned_device)) = MENDER_NOT_FOUND"
  by code_simp

text \<open>
  Claim C7, as the code has it. When the artifact-name item was never set,
  \<^verbatim>\<open>mender_storage_get_artifact_name\<close> returns \<^verbatim>\<open>MENDER_OK\<close>, and the string it
  hands out is the literal \<^verbatim>\<open>"unknown"\<close> (whenever \<^verbatim>\<open>strdup\<close> could allocate it,
  as it can when no call fails). It answers with the same default when the item
  exists but cannot be opened or is empty. Once the item is opened and is not empty,
  the getter returns what the reader returns: \<^verbatim>\<open>MENDER_OK\<close> with the whole name, or
  \<^verbatim>\<open>MENDER_FAIL\<close>, which it is whenever the allocation of the buffer fails or the
  read comes up short.
\<close>

theorem artifact_name_default_and_failures:
  assumes g: "mender_storage_get_artifact_name an w = (r, p, w2)"
  shows "(files w MENDER_STORAGE_NVS_ARTICACT_NAME = None \<longrightarrow>
            r = MENDER_OK \<and> (script w = [] \<longrightarrow> p \<noteq> NULL) \<and>
            (p \<noteq> NULL \<longrightarrow> buffer_at w2 p = Some (''unknown'' @ [NUL])))
     \<and> (fst (fopen MENDER_STORAGE_NVS_ARTICACT_NAME RB w) = None \<or>
          file_bytes w MENDER_STORAGE_NVS_ARTICACT_NAME = [] \<longrightarrow>
            r = MENDER_OK \<and> (p \<noteq> NULL \<longrightarrow> buffer_at w2 p = Some (''unknown'' @ [NUL])))
     \<and> (files w MENDER_STORAGE_NVS_ARTICACT_NAME = Some c \<and> c \<noteq> [] \<and>
          fst (fopen MENDER_STORAGE_NVS_ARTICACT_NAME RB w) = Some f \<longrightarrow>
            r = fst (mender_storage_read_file MENDER_STORAGE_NVS_ARTICACT_NAME an 0 w) \<and>
            (r = MENDER_FAIL \<or> r = MENDER_OK \<and> buffer_at w2 p = Some (c @ [NUL])))
     \<and> (files w MENDER_STORAGE_NVS_ARTICACT_NAME = Some c \<and> c \<noteq> [] \<and>
          fst (fopen MENDER_STORAGE_NVS_ARTICACT_NAME RB w) = Some f \<and>
          fst (malloc (length c + 1) (snd (fopen MENDER_STORAGE_NVS_ARTICACT_NAME RB w))) = NULL \<longrightarrow>
            r = MENDER_FAIL)
     \<and> (files w MENDER_STORAGE_NVS_ARTICACT_NAME = Some c \<and> c \<noteq> [] \<and>
          fst (fopen MENDER_STORAGE_NVS_ARTICACT_NAME RB w) = Some f \<and>
          fst (snd (fread 1 (length c)
                 (fseek_set (fseek_end f (snd (fopen MENDER_STORAGE_NVS_ARTICACT_NAME RB w))))
                 (set_buffer
                    (fst (malloc (length c + 1)
                       (snd (fopen MENDER_STORAGE_NVS_ARTICACT_NAME RB w))))
                    (\<lambda>buf. buf[length c := NUL])
                    (snd (malloc (length c + 1)
                       (snd (fopen MENDER_STORAGE_NVS_ARTICACT_NAME RB w)))))))
            \<noteq> length c \<longrightarrow>
            r = MENDER_FAIL)"
proof -
  let ?N = MENDER_STORAGE_NVS_ARTICACT_NAME
  let ?R = "mender_storage_read_file ?N an 0 w"
  let ?w1 = "snd (fopen ?N RB w)"
  obtain r1 p1 n1 wr where e: "?R = (r1, p1, n1, wr)"
    by (cases ?R) auto
  have absent: "r = MENDER_OK \<and> (script w = [] \<longrightarrow> p \<noteq> NULL) \<and>
      (p \<noteq> NULL \<longrightarrow> buffer_at w2 p = Some (''unknown'' @ [NUL]))"
    if "file_bytes w ?N = []"
    using get_artifact_name_default [OF that g] by simp
  have closed: "r = MENDER_OK \<and> (p \<noteq> NULL \<longrightarrow> buffer_at w2 p = Some (''unknown'' @ [NUL]))"
    if no: "fst (fopen ?N RB w) = None"
  proof -
    have rf: "?R = (MENDER_NOT_FOUND, an, 0, ?w1)"
      using no by (cases "fopen ?N RB w") (simp add: mender_storage_read_file_def)
    obtain q wb where sd: "strdup ''unknown'' ?w1 = (q, wb)"
      by (cases "strdup ''unknown'' ?w1")
    have res: "(r, p, w2) = (MENDER_OK, q, wb)"
      using g rf sd by (simp add: mender_storage_get_artifact_name_def)
    note al = allocate_cases [OF sd [unfolded strdup_def strdup_unknown]]
    have "q \<noteq> NULL \<longrightarrow> buffer_at wb q = Some (''unknown'' @ [NUL])"
      using al by (auto simp: buffer_at_def)
    then show ?thesis
      using res by simp
  qed
  have opened: "r = r1 \<and> r1 = (if q = NULL \<or> k \<noteq> length c then MENDER_FAIL else MENDER_OK) \<and>
      (r = MENDER_FAIL \<or> r = MENDER_OK \<and> buffer_at w2 p = Some (c @ [NUL]))"
    if c: "files w ?N = Some c" and ne: "c \<noteq> []" and fo: "fst (fopen ?N RB w) = Some f"
      and ma: "malloc (length c + 1) ?w1 = (q, wb)"
      and fr: "fread 1 (length c) (fseek_set (fseek_end f ?w1))
                 (set_buffer q (\<lambda>buf. buf[length c := NUL]) wb) = (moved, k, f3, w4)"
    for c f q wb moved k f3 w4
  proof -
    have fo': "fopen ?N RB w = (Some f, ?w1)"
      using fo by (simp add: prod_eq_iff)
    have r1: "r1 = (if q = NULL \<or> k \<noteq> length c then MENDER_FAIL else MENDER_OK)"
      using read_file_opened [OF c ne fo' ma fr, of an 0] e by simp
    then have same: "(r, p, w2) = (r1, p1, wr)"
      using g e by (auto simp: mender_storage_get_artifact_name_def)
    have "buffer_at w2 p = Some (c @ [NUL])" if "r1 = MENDER_OK"
      using read_file_OK [OF e [unfolded that]] c same by (auto simp: buffer_at_def)
    then show ?thesis
      using r1 same by auto
  qed
  have third: "r = fst ?R \<and> (r = MENDER_FAIL \<or> r = MENDER_OK \<and> buffer_at w2 p = Some (c @ [NUL]))"
    if "files w ?N = Some c" "c \<noteq> []" "fst (fopen ?N RB w) = Some f" for c f
  proof -
    obtain q wb where ma: "malloc (length c + 1) ?w1 = (q, wb)"
      by (cases "malloc (length c + 1) ?w1")
    obtain moved k f3 w4 where fr: "fread 1 (length c) (fseek_set (fseek_end f ?w1))
        (set_buffer q (\<lambda>buf. buf[length c := NUL]) wb) = (moved, k, f3, w4)"
      by (cases "fread 1 (length c) (fseek_set (fseek_end f ?w1))
        (set_buffer q (\<lambda>buf. buf[length c := NUL]) wb)") auto
    from opened [OF that ma fr] have "r = r1"
      and "r = MENDER_FAIL \<or> r = MENDER_OK \<and> buffer_at w2 p = Some (c @ [NUL])"
      by blast+
    then show ?thesis
      using e by simp
  qed
  have fourth: "r = MENDER_FAIL"
    if "files w ?N = Some c" "c \<noteq> []" "fst (fopen ?N RB w) = Some f"
      and nul: "fst (malloc (length c + 1) ?w1) = NULL" for c f
  proof -
    obtain q wb where ma: "malloc (length c + 1) ?w1 = (q, wb)"
      by (cases "malloc (length c + 1) ?w1")
    obtain moved k f3 w4 where fr: "fread 1 (length c) (fseek_set (fseek_end f ?w1))
        (set_buffer q (\<lambda>buf. buf[length c := NUL]) wb) = (moved, k, f3, w4)"
      by (cases "fread 1 (length c) (fseek_set (fseek_end f ?w1))
        (set_buffer q (\<lambda>buf. buf[length c := NUL]) wb)") auto
    from opened [OF that(1-3) ma fr] nul ma show ?thesis
      by simp
  qed
  have fifth: "r = MENDER_FAIL"
    if "files w ?N = Some c" "c \<noteq> []" "fst (fopen ?N RB w) = Some f"
      and short: "fst (snd (fread 1 (length c) (fseek_set (fseek_end f ?w1))
          (set_buffer (fst (malloc (length c + 1) ?w1)) (\<lambda>buf. buf[length c := NUL])
             (snd (malloc (length c + 1) ?w1))))) \<noteq> length c" for c f
  proof -
    let ?q = "fst (malloc (length c + 1) ?w1)"
    let ?wb = "snd (malloc (length c + 1) ?w1)"
    have ma: "malloc (length c + 1) ?w1 = (?q, ?wb)"
      by simp
    obtain moved k f3 w4 where fr: "fread 1 (length c) (fseek_set (fseek_end f ?w1))
        (set_buffer ?q (\<lambda>buf. buf[length c := NUL]) ?wb) = (moved, k, f3, w4)"
      by (cases "fread 1 (length c) (fseek_set (fseek_end f ?w1))
        (set_buffer ?q (\<lambda>buf. buf[length c := NUL]) ?wb)") auto
    from opened [OF that(1-3) ma fr] short fr show ?thesis
      by simp
  qed
  have first: "r = MENDER_OK \<and> (script w = [] \<longrightarrow> p \<noteq> NULL) \<and>
      (p \<noteq> NULL \<longrightarrow> buffer_at w2 p = Some (''unknown'' @ [NUL]))"
    if "files w ?N = None"
    using absent that by (simp add: file_bytes_def)
  have second: "r = MENDER_OK \<and> (p \<noteq> NULL \<longrightarrow> buffer_at w2 p = Some (''unknown'' @ [NUL]))"
    if "fst (fopen ?N RB w) = None \<or> file_bytes w ?N = []"
    using that absent closed by blast
  show ?thesis
    using first second third fourth fifth by blast
qed

theorem artifact_name_default_and_failures_witness:
  "(case mender_storage_get_artifact_name NULL fresh_device of
      (r, p, w2) \<Rightarrow> r = MENDER_OK \<and> p \<noteq> NULL \<and> buffer_at w2 p = Some (''unknown'' @ [NUL]))
   \<and> files (with_script [Refuse] provisioned_device) MENDER_STORAGE_NVS_ARTICACT_NAME
        = Some ''v1''
   \<and> (case mender_storage_get_artifact_name NULL (with_script [Refuse] provisioned_device) of
      (r, p, w2) \<Rightarrow> r = MENDER_OK \<and> p \<noteq> NULL \<and> buffer_at w2 p = Some (''unknown'' @ [NUL]))
   \<and> (case mender_storage_get_artifact_name NULL
          (put_file MENDER_STORAGE_NVS_ARTICACT_NAME [] fresh_device) of
      (r, p, w2) \<Rightarrow> r = MENDER_OK \<and> p \<noteq> NULL \<and> buffer_at w2 p = Some (''unknown'' @ [NUL]))
   \<and> (case mender_storage_get_artifact_name NULL provisioned_device of
      (r, p, w2) \<Rightarrow> r = MENDER_OK \<and> buffer_at w2 p = Some (''v1'' @ [NUL]))
   \<and> fst (mender_storage_get_artifact_name NULL
          (with_script [Normal, Refuse] provisioned_device)) = MENDER_FAIL
   \<and> fst (mender_storage_get_artifact_name NULL
          (with_script [Normal, Normal, Short 1] provisioned_device)) = MENDER_FAIL"
proof -
  let ?N = MENDER_STORAGE_NVS_ARTICACT_NAME
  let ?f = "\<lparr>fpath = ?N, fpos = 0, fbuf = []\<rparr>"
  let ?A = fresh_device
  let ?B = "with_script [Refuse] provisioned_device"
  let ?C = "put_file ?N [] fresh_device"
  let ?D = provisioned_device
  let ?E = "with_script [Normal, Refuse] provisioned_device"
  let ?F = "with_script [Normal, Normal, Short 1] provisioned_device"
  obtain ra pa wa where ga: "mender_storage_get_artifact_name NULL ?A = (ra, pa, wa)"
    by (cases "mender_storage_get_artifact_name NULL ?A") auto
  obtain rb pb wb where gb: "mender_storage_get_artifact_name NULL ?B = (rb, pb, wb)"
    by (cases "mender_storage_get_artifact_name NULL ?B") auto
  obtain rc pc wc where gc: "mender_storage_get_artifact_name NULL ?C = (rc, pc, wc)"
    by (cases "mender_storage_get_artifact_name NULL ?C") auto
  obtain rd pd wd where gd: "mender_storage_get_artifact_name NULL ?D = (rd, pd, wd)"
    by (cases "mender_storage_get_artifact_name NULL ?D") auto
  obtain re pe we where ge: "mender_storage_get_artifact_name NULL ?E = (re, pe, we)"
    by (cases "mender_storage_get_artifact_name NULL ?E") auto
  obtain rf pf wf where gf: "mender_storage_get_artifact_name NULL ?F = (rf, pf, wf)"
    by (cases "mender_storage_get_artifact_name NULL ?F") auto
  have ha: "files ?A ?N = None" "script ?A = []"
    by code_simp+
  have hb: "files ?B ?N = Some ''v1''" "fst (fopen ?N RB ?B) = None"
    "fst (snd (mender_storage_get_artifact_name NULL ?B)) \<noteq> NULL"
    by code_simp+
  have hc: "file_bytes ?C ?N = []"
    "fst (snd (mender_storage_get_artifact_name NULL ?C)) \<noteq> NULL"
    by code_simp+
  have hd: "files ?D ?N = Some ''v1''" "fst (fopen ?N RB ?D) = Some ?f"
    "fst (mender_storage_read_file ?N NULL 0 ?D) = MENDER_OK"
    by code_simp+
  have he: "files ?E ?N = Some ''v1''" "fst (fopen ?N RB ?E) = Some ?f"
    "fst (malloc (length ''v1'' + 1) (snd (fopen ?N RB ?E))) = NULL"
    by code_simp+
  have hf: "files ?F ?N = Some ''v1''" "fst (fopen ?N RB ?F) = Some ?f"
    "fst (snd (fread 1 (length ''v1'')
       (fseek_set (fseek_end ?f (snd (fopen ?N RB ?F))))
       (set_buffer (fst (malloc (length ''v1'' + 1) (snd (fopen ?N RB ?F))))
          (\<lambda>buf. buf[length ''v1'' := NUL])
          (snd (malloc (length ''v1'' + 1) (snd (fopen ?N RB ?F))))))) \<noteq> length ''v1''"
    by code_simp+
  have a: "ra = MENDER_OK \<and> pa \<noteq> NULL \<and> buffer_at wa pa = Some (''unknown'' @ [NUL])"
    using artifact_name_default_and_failures [OF ga, THEN conjunct1] ha by simp
  have b: "rb = MENDER_OK \<and> pb \<noteq> NULL \<and> buffer_at wb pb = Some (''unknown'' @ [NUL])"
    using artifact_name_default_and_failures [OF gb, THEN conjunct2, THEN conjunct1] hb gb
    by simp
  have c: "rc = MENDER_OK \<and> pc \<noteq> NULL \<and> buffer_at wc pc = Some (''unknown'' @ [NUL])"
    using artifact_name_default_and_failures [OF gc, THEN conjunct2, THEN conjunct1] hc gc
    by simp
  have d: "rd = MENDER_OK \<and> buffer_at wd pd = Some (''v1'' @ [NUL])"
    using artifact_name_default_and_failures [OF gd, where c = "''v1''" and f = ?f,
        THEN conjunct2, THEN conjunct2, THEN conjunct1] hd
    by auto
  have e: "re = MENDER_FAIL"
    using artifact_name_default_and_failures [OF ge, where c = "''v1''" and f = ?f,
        THEN conjunct2, THEN conjunct2, THEN conjunct2, THEN conjunct1] he
    by simp
  have f: "rf = MENDER_FAIL"
    using artifact_name_default_and_failures [OF gf, where c = "''v1''" and f = ?f,
        THEN conjunct2, THEN conjunct2, THEN conjunct2, THEN conjunct2] hf
    by simp
  show ?thesis
    using a b c d e f ga gb gc gd ge gf hb by simp
qed

text \<open>
  Claim C7 as stated fails: a read failure other than absence is not always passed
  on. The artifact-name item exists and holds a name, the file cannot be opened, and
  the getter returns \<^verbatim>\<open>MENDER_OK\<close> with \<^verbatim>\<open>"unknown"\<close>.
\<close>

theorem unopened_artifact_name_reads_as_unknown:
  "files (with_script [Refuse] provisioned_device) MENDER_STORAGE_NVS_ARTICACT_NAME
     = Some ''v1''
   \<and> fst (fopen MENDER_STORAGE_NVS_ARTICACT_NAME RB (with_script [Refuse] provisioned_device))
        = None
   \<and> fst (mender_storage_get_artifact_name NULL (with_script [Refuse] provisioned_device))
        = MENDER_OK
   \<and> buffer_at
        (snd (snd (mender_storage_get_artifact_name NULL
           (with_script [Refuse] provisioned_device))))
        (fst (snd (mender_storage_get_artifact_name NULL
           (with_script [Refuse] provisioned_device))))
        = Some (''unknown'' @ [NUL])"
  by code_simp




text \<open>
  Claim C9. Every buffer that a successful read through \<^verbatim>\<open>mender_storage_read_file\<close>
  hands on is the stored content followed by one NUL byte: it is one byte longer than
  the item and terminated at the stored length, although the item holds no
  terminator. This holds for the reader itself, for both authentication keys, for
  the deployment data, for an artifact name that was read from its item, and for the
  text that the provides parser is given.
\<close>

theorem reader_buffers_nul_terminated:
  "(mender_storage_read_file path d l w = (MENDER_OK, p, n, w1) \<longrightarrow>
      (\<exists>c. files w path = Some c \<and> n = length c \<and> buffer_at w1 p = Some (c @ [NUL])))
   \<and> (mender_storage_get_authentication_keys a al b bl w = (MENDER_OK, pk, pkl, pub, publ, w2) \<longrightarrow>
      (\<exists>x y. files w MENDER_STORAGE_NVS_PRIVATE_KEY = Some x \<and> pkl = length x \<and>
             buffer_at w2 pk = Some (x @ [NUL]) \<and>
             files w MENDER_STORAGE_NVS_PUBLIC_KEY = Some y \<and> publ = length y \<and>
             buffer_at w2 pub = Some (y @ [NUL])))
   \<and> (mender_storage_get_deployment_data dd w = (MENDER_OK, q, w3) \<longrightarrow>
      (\<exists>c. files w MENDER_STORAGE_NVS_DEPLOYMENT_DATA = Some c \<and>
           buffer_at w3 q = Some (c @ [NUL])))
   \<and> (mender_storage_get_artifact_name an w = (MENDER_OK, s, w4) \<longrightarrow>
      fst (mender_storage_read_file MENDER_STORAGE_NVS_ARTICACT_NAME an 0 w) = MENDER_OK \<longrightarrow>
      (\<exists>c. files w MENDER_STORAGE_NVS_ARTICACT_NAME = Some c \<and>
           buffer_at w4 s = Some (c @ [NUL])))
   \<and> (mender_storage_get_provides parse kv w = (MENDER_OK, kv1, w5) \<longrightarrow>
      (\<exists>c t w6. files w MENDER_STORAGE_NVS_PROVIDES = Some c \<and>
           buffer_at w6 t = Some (c @ [NUL]) \<and> parse w6 t kv = (MENDER_OK, kv1)))"
proof (intro conjI impI)
  assume "mender_storage_read_file path d l w = (MENDER_OK, p, n, w1)"
  from read_file_OK [OF this]
  show "\<exists>c. files w path = Some c \<and> n = length c \<and> buffer_at w1 p = Some (c @ [NUL])"
    by (auto simp: buffer_at_def)
next
  assume g: "mender_storage_get_authentication_keys a al b bl w = (MENDER_OK, pk, pkl, pub, publ, w2)"
  obtain r1 p1 n1 wa where e1:
    "mender_storage_read_file MENDER_STORAGE_NVS_PRIVATE_KEY a al w = (r1, p1, n1, wa)"
    by (cases "mender_storage_read_file MENDER_STORAGE_NVS_PRIVATE_KEY a al w") auto
  obtain r2 p2 n2 wb where e2:
    "mender_storage_read_file MENDER_STORAGE_NVS_PUBLIC_KEY b bl wa = (r2, p2, n2, wb)"
    by (cases "mender_storage_read_file MENDER_STORAGE_NVS_PUBLIC_KEY b bl wa") auto
  from g e1 e2 have r: "r1 = MENDER_OK" "r2 = MENDER_OK"
    and o: "pk = p1" "pkl = n1" "pub = p2" "publ = n2" "w2 = wb"
    by (auto simp: mender_storage_get_authentication_keys_def split: if_splits)
  from read_file_OK [OF e1 [unfolded r]] obtain x where
    x: "files w MENDER_STORAGE_NVS_PRIVATE_KEY = Some x" "n1 = length x"
       "p1 = fresh_addr (heap w)" "heap wa = (p1, x @ [NUL]) # heap w" "files wa = files w"
    by auto
  from read_file_OK [OF e2 [unfolded r]] obtain y where
    y: "files wa MENDER_STORAGE_NVS_PUBLIC_KEY = Some y" "n2 = length y"
       "p2 = fresh_addr (heap wa)" "heap wb = (p2, y @ [NUL]) # heap wa"
    by auto
  have "p1 < p2"
    using fresh_addr_bound [of p1 "x @ [NUL]" "heap wa"] x y by simp
  then show "\<exists>x y. files w MENDER_STORAGE_NVS_PRIVATE_KEY = Some x \<and> pkl = length x \<and>
             buffer_at w2 pk = Some (x @ [NUL]) \<and>
             files w MENDER_STORAGE_NVS_PUBLIC_KEY = Some y \<and> publ = length y \<and>
             buffer_at w2 pub = Some (y @ [NUL])"
    using x y o by (auto simp: buffer_at_def)
next
  assume g: "mender_storage_get_deployment_data dd w = (MENDER_OK, q, w3)"
  obtain r1 p1 n1 wa where e1:
    "mender_storage_read_file MENDER_STORAGE_NVS_DEPLOYMENT_DATA dd 0 w = (r1, p1, n1, wa)"
    by (cases "mender_storage_read_file MENDER_STORAGE_NVS_DEPLOYMENT_DATA dd 0 w") auto
  from g e1 have r: "r1 = MENDER_OK" and o: "q = p1" "w3 = wa"
    by (auto simp: mender_storage_get_deployment_data_def split: if_splits)
  from read_file_OK [OF e1 [unfolded r]] o
  show "\<exists>c. files w MENDER_STORAGE_NVS_DEPLOYMENT_DATA = Some c \<and> buffer_at w3 q = Some (c @ [NUL])"
    by (auto simp: buffer_at_def)
next
  assume g: "mender_storage_get_artifact_name an w = (MENDER_OK, s, w4)"
    and k: "fst (mender_storage_read_file MENDER_STORAGE_NVS_ARTICACT_NAME an 0 w) = MENDER_OK"
  obtain r1 p1 n1 wa where e1:
    "mender_storage_read_file MENDER_STORAGE_NVS_ARTICACT_NAME an 0 w = (r1, p1, n1, wa)"
    by (cases "mender_storage_read_file MENDER_STORAGE_NVS_ARTICACT_NAME an 0 w") auto
  from g e1 k have r: "r1 = MENDER_OK" and o: "s = p1" "w4 = wa"
    by (auto simp: mender_storage_get_artifact_name_def split: if_splits)
  from read_file_OK [OF e1 [unfolded r]] o
  show "\<exists>c. files w MENDER_STORAGE_NVS_ARTICACT_NAME = Some c \<and> buffer_at w4 s = Some (c @ [NUL])"
    by (auto simp: buffer_at_def)
next
  assume g: "mender_storage_get_provides parse kv w = (MENDER_OK, kv1, w5)"
  obtain r1 p1 n1 wa where e1:
    "mender_storage_read_file MENDER_STORAGE_NVS_PROVIDES NULL 0 w = (r1, p1, n1, wa)"
    by (cases "mender_storage_read_file MENDER_STORAGE_NVS_PROVIDES NULL 0 w") auto
  obtain r2 kv2 where e2: "parse wa p1 kv = (r2, kv2)"
    by (cases "parse wa p1 kv")
  from g e1 e2 have r: "r1 = MENDER_OK" "r2 = MENDER_OK" and o: "kv1 = kv2"
    by (auto simp: mender_storage_get_provides_def split: if_splits)
  from read_file_OK [OF e1 [unfolded r]] obtain c where
    c: "files w MENDER_STORAGE_NVS_PROVIDES = Some c" "heap wa = (p1, c @ [NUL]) # heap w"
    by auto
  have "files w MENDER_STORAGE_NVS_PROVIDES = Some c \<and>
        buffer_at wa p1 = Some (c @ [NUL]) \<and> parse wa p1 kv = (MENDER_OK, kv1)"
    using c e2 r o by (simp add: buffer_at_def)
  then show "\<exists>c t w6. files w MENDER_STORAGE_NVS_PROVIDES = Some c \<and>
           buffer_at w6 t = Some (c @ [NUL]) \<and> parse w6 t kv = (MENDER_OK, kv1)"
    by blast
qed

theorem reader_buffers_nul_terminated_witness:
  "(case mender_storage_read_file MENDER_STORAGE_NVS_PRIVATE_KEY NULL 0 provisioned_device of
      (r, p, n, w1) \<Rightarrow> r = MENDER_OK \<and> n = 4 \<and> buffer_at w1 p = Some (''priv'' @ [NUL]))
   \<and> (case mender_storage_get_authentication_keys NULL 0 NULL 0 provisioned_device of
      (r, pk, pkl, pub, publ, w2) \<Rightarrow>
        r = MENDER_OK \<and> pkl = 4 \<and> buffer_at w2 pk = Some (''priv'' @ [NUL]) \<and>
        publ = 3 \<and> buffer_at w2 pub = Some (''pub'' @ [NUL]))
   \<and> (case mender_storage_get_deployment_data NULL provisioned_device of
      (r, q, w3) \<Rightarrow> r = MENDER_OK \<and> buffer_at w3 q = Some (''{}'' @ [NUL]))
   \<and> (case mender_storage_get_artifact_name NULL provisioned_device of
      (r, s, w4) \<Rightarrow> r = MENDER_OK \<and> buffer_at w4 s = Some (''v1'' @ [NUL]))
   \<and> mender_storage_get_provides count_provides 0 provisioned_device
        = (MENDER_OK, 3, snd (snd (mender_storage_get_provides count_provides 0 provisioned_device)))"
proof -
  let ?W = provisioned_device
  obtain r1 p n w1 where e1:
    "mender_storage_read_file MENDER_STORAGE_NVS_PRIVATE_KEY NULL 0 ?W = (r1, p, n, w1)"
    by (cases "mender_storage_read_file MENDER_STORAGE_NVS_PRIVATE_KEY NULL 0 ?W") auto
  obtain r2 pk pkl pub publ w2 where e2:
    "mender_storage_get_authentication_keys NULL 0 NULL 0 ?W = (r2, pk, pkl, pub, publ, w2)"
    by (cases "mender_storage_get_authentication_keys NULL 0 NULL 0 ?W") auto
  obtain r3 q w3 where e3: "mender_storage_get_deployment_data NULL ?W = (r3, q, w3)"
    by (cases "mender_storage_get_deployment_data NULL ?W") auto
  obtain r4 s w4 where e4: "mender_storage_get_artifact_name NULL ?W = (r4, s, w4)"
    by (cases "mender_storage_get_artifact_name NULL ?W") auto
  obtain r5 kv1 w5 where e5: "mender_storage_get_provides count_provides 0 ?W = (r5, kv1, w5)"
    by (cases "mender_storage_get_provides count_provides 0 ?W") auto
  have "fst (mender_storage_read_file MENDER_STORAGE_NVS_PRIVATE_KEY NULL 0 ?W) = MENDER_OK"
    by code_simp
  with e1 have r1: "r1 = MENDER_OK" by simp
  have "fst (mender_storage_get_authentication_keys NULL 0 NULL 0 ?W) = MENDER_OK"
    by code_simp
  with e2 have r2: "r2 = MENDER_OK" by simp
  have "fst (mender_storage_get_deployment_data NULL ?W) = MENDER_OK"
    by code_simp
  with e3 have r3: "r3 = MENDER_OK" by simp
  have "fst (mender_storage_get_artifact_name NULL ?W) = MENDER_OK"
    by code_simp
  with e4 have r4: "r4 = MENDER_OK" by simp
  have k4: "fst (mender_storage_read_file MENDER_STORAGE_NVS_ARTICACT_NAME NULL 0 ?W) = MENDER_OK"
    by code_simp
  have "fst (mender_storage_get_provides count_provides 0 ?W) = MENDER_OK"
    by code_simp
  with e5 have r5: "r5 = MENDER_OK" by simp
  have f: "files ?W MENDER_STORAGE_NVS_PRIVATE_KEY = Some ''priv''"
    "files ?W MENDER_STORAGE_NVS_PUBLIC_KEY = Some ''pub''"
    "files ?W MENDER_STORAGE_NVS_DEPLOYMENT_DATA = Some ''{}''"
    "files ?W MENDER_STORAGE_NVS_ARTICACT_NAME = Some ''v1''"
    "files ?W MENDER_STORAGE_NVS_PROVIDES = Some ''a=b''"
    by code_simp+
  note t = reader_buffers_nul_terminated [where w = ?W and path = MENDER_STORAGE_NVS_PRIVATE_KEY
      and d = NULL and l = 0 and p = p and n = n and ?w1.0 = w1
      and a = NULL and al = 0 and b = NULL and bl = 0
      and pk = pk and pkl = pkl and pub = pub and publ = publ and ?w2.0 = w2
      and dd = NULL and q = q and ?w3.0 = w3 and an = NULL and s = s and ?w4.0 = w4
      and parse = count_provides and kv = 0 and ?kv1.0 = kv1 and ?w5.0 = w5]
  have c1: "n = 4 \<and> buffer_at w1 p = Some (''priv'' @ [NUL])"
    using t [THEN conjunct1] e1 r1 f by auto
  have c2: "pkl = 4 \<and> buffer_at w2 pk = Some (''priv'' @ [NUL]) \<and>
        publ = 3 \<and> buffer_at w2 pub = Some (''pub'' @ [NUL])"
    using t [THEN conjunct2, THEN conjunct1] e2 r2 f by auto
  have c3: "buffer_at w3 q = Some (''{}'' @ [NUL])"
    using t [THEN conjunct2, THEN conjunct2, THEN conjunct1] e3 r3 f by auto
  have c4: "buffer_at w4 s = Some (''v1'' @ [NUL])"
    using t [THEN conjunct2, THEN conjunct2, THEN conjunct2, THEN conjunct1] e4 r4 k4 f by auto
  obtain tx w6 where c5: "buffer_at w6 tx = Some (''a=b'' @ [NUL])"
      "count_provides w6 tx 0 = (MENDER_OK, kv1)"
    using t [THEN conjunct2, THEN conjunct2, THEN conjunct2, THEN conjunct2] e5 r5 f by auto
  have "kv1 = 3"
    using c5 by (simp add: count_provides_def strlen_def)
  then show ?thesis
    using e1 r1 c1 e2 r2 c2 e3 r3 c3 e4 r4 c4 e5 r5 by simp
qed

text \<open>
  Claim C10. A stored value of length zero reads as an absent item. After
  \<^verbatim>\<open>mender_storage_set_deployment_data("")\<close> succeeded the item is empty and
  \<^verbatim>\<open>mender_storage_get_deployment_data\<close> returns \<^verbatim>\<open>MENDER_NOT_FOUND\<close>; after
  \<^verbatim>\<open>mender_storage_set_artifact_name("")\<close> succeeded
  \<^verbatim>\<open>mender_storage_get_artifact_name\<close> returns \<^verbatim>\<open>MENDER_OK\<close> with the default
  \<^verbatim>\<open>"unknown"\<close>, not the empty string.
\<close>

theorem empty_value_reads_as_absent:
  "(mender_storage_set_deployment_data [] w = (MENDER_OK, w1) \<longrightarrow>
      files w1 MENDER_STORAGE_NVS_DEPLOYMENT_DATA = Some [] \<and>
      fst (mender_storage_get_deployment_data dd w1) = MENDER_NOT_FOUND)
   \<and> (mender_storage_set_artifact_name [] v = (MENDER_OK, v1) \<and>
        mender_storage_get_artifact_name an v1 = (r, p, v2) \<longrightarrow>
      files v1 MENDER_STORAGE_NVS_ARTICACT_NAME = Some [] \<and>
      r = MENDER_OK \<and> (script v1 = [] \<longrightarrow> p \<noteq> NULL) \<and>
      (p \<noteq> NULL \<longrightarrow> buffer_at v2 p = Some (''unknown'' @ [NUL])))"
proof (intro conjI impI)
  assume s: "mender_storage_set_deployment_data [] w = (MENDER_OK, w1)"
  obtain r0 wa where e: "mender_storage_write_file MENDER_STORAGE_NVS_DEPLOYMENT_DATA [] 0 w = (r0, wa)"
    by (cases "mender_storage_write_file MENDER_STORAGE_NVS_DEPLOYMENT_DATA [] 0 w")
  from s e have "r0 = MENDER_OK" "wa = w1"
    by (auto simp: mender_storage_set_deployment_data_def strlen_def split: if_splits)
  with write_file_cases [OF e]
  show f: "files w1 MENDER_STORAGE_NVS_DEPLOYMENT_DATA = Some []"
    by simp
  then have "file_bytes w1 MENDER_STORAGE_NVS_DEPLOYMENT_DATA = []"
    by (simp add: file_bytes_def)
  then have "mender_storage_read_file MENDER_STORAGE_NVS_DEPLOYMENT_DATA dd 0 w1
      = (MENDER_NOT_FOUND, dd, 0, snd (fopen MENDER_STORAGE_NVS_DEPLOYMENT_DATA RB w1))"
    by (rule read_file_nothing)
  then show "fst (mender_storage_get_deployment_data dd w1) = MENDER_NOT_FOUND"
    by (simp add: mender_storage_get_deployment_data_def)
next
  assume a: "mender_storage_set_artifact_name [] v = (MENDER_OK, v1) \<and>
        mender_storage_get_artifact_name an v1 = (r, p, v2)"
  obtain r0 wa where e: "mender_storage_write_file MENDER_STORAGE_NVS_ARTICACT_NAME [] 0 v = (r0, wa)"
    by (cases "mender_storage_write_file MENDER_STORAGE_NVS_ARTICACT_NAME [] 0 v")
  from a e have "r0 = MENDER_OK" "wa = v1"
    by (auto simp: mender_storage_set_artifact_name_def strlen_def split: if_splits)
  with write_file_cases [OF e]
  show f: "files v1 MENDER_STORAGE_NVS_ARTICACT_NAME = Some []"
    by simp
  then have n: "file_bytes v1 MENDER_STORAGE_NVS_ARTICACT_NAME = []"
    by (simp add: file_bytes_def)
  from a have g: "mender_storage_get_artifact_name an v1 = (r, p, v2)" by simp
  note d = get_artifact_name_default [OF n g]
  show "r = MENDER_OK" using d by simp
  show "p \<noteq> NULL" if "script v1 = []" using d that by simp
  show "buffer_at v2 p = Some (''unknown'' @ [NUL])" if "p \<noteq> NULL" using d that by simp
qed

theorem empty_value_reads_as_absent_witness:
  "fst (mender_storage_set_deployment_data [] provisioned_device) = MENDER_OK
   \<and> fst (mender_storage_get_deployment_data NULL
          (snd (mender_storage_set_deployment_data [] provisioned_device))) = MENDER_NOT_FOUND
   \<and> fst (mender_storage_set_artifact_name [] provisioned_device) = MENDER_OK
   \<and> (case mender_storage_get_artifact_name NULL
            (snd (mender_storage_set_artifact_name [] provisioned_device)) of
        (r, p, v2) \<Rightarrow> r = MENDER_OK \<and> p \<noteq> NULL \<and> buffer_at v2 p = Some (''unknown'' @ [NUL]))"
proof -
  let ?S = "mender_storage_set_deployment_data [] provisioned_device"
  let ?T = "mender_storage_set_artifact_name [] provisioned_device"
  have a: "fst ?S = MENDER_OK" "fst ?T = MENDER_OK" "script (snd ?T) = []"
    by code_simp+
  then have s: "?S = (MENDER_OK, snd ?S)" and t: "?T = (MENDER_OK, snd ?T)"
    by (simp_all add: prod_eq_iff)
  obtain r p v2 where g: "mender_storage_get_artifact_name NULL (snd ?T) = (r, p, v2)"
    by (cases "mender_storage_get_artifact_name NULL (snd ?T)") auto
  note e = empty_value_reads_as_absent [of provisioned_device "snd ?S" NULL
      provisioned_device "snd ?T" NULL r p v2]
  have "fst (mender_storage_get_deployment_data NULL (snd ?S)) = MENDER_NOT_FOUND"
    using e s by simp
  moreover have "r = MENDER_OK \<and> p \<noteq> NULL \<and> buffer_at v2 p = Some (''unknown'' @ [NUL])"
    using e t g a by simp
  ultimately show ?thesis
    using a g by simp
qed

end
